theory Spec2Isabelle
  imports Complex_Main "HOL-Library.Sublist"
begin

unbundle bit_operations_syntax

section \<open>Python values\<close>

text \<open>
  The simulator is Python. A \<^verbatim>\<open>float\<close> is modelled as the real number it denotes (see
  the section on floating point for range and rounding), an unbounded \<^verbatim>\<open>int\<close> as
  \<open>int\<close>, a \<^verbatim>\<open>str\<close> as \<open>string\<close> (the code points below 256), and a packet (a
  \<^verbatim>\<open>dict\<close> with string keys) as a map from keys to values.
\<close>

datatype pyval = PNone | PBool bool | PInt int | PFloat real | PStr string

text \<open>\<^verbatim>\<open>bool(v)\<close>: Python's truth value of an object.\<close>

fun truthy :: "pyval \<Rightarrow> bool" where
  "truthy PNone = False"
| "truthy (PBool b) = b"
| "truthy (PInt i) = (i \<noteq> 0)"
| "truthy (PFloat r) = (r \<noteq> 0)"
| "truthy (PStr s) = (s \<noteq> [])"

type_synonym packet = "string \<rightharpoonup> pyval"

text \<open>\<^verbatim>\<open>d.get(k, default)\<close> and \<^verbatim>\<open>d.get(k)\<close> (whose default is \<^verbatim>\<open>None\<close>).\<close>

definition dict_get :: "packet \<Rightarrow> string \<Rightarrow> pyval \<Rightarrow> pyval" where
  "dict_get d k dflt = (case d k of None \<Rightarrow> dflt | Some v \<Rightarrow> v)"

section \<open>Floating point\<close>

text \<open>
  A Python \<^verbatim>\<open>float\<close> is an IEEE binary64 number. The model keeps a finite float as
  the real it denotes and writes out the two ways in which a double is not a real.

  \<^emph>\<open>Range.\<close> A result whose exact value has magnitude at most \<open>DBL_UNDERFLOW\<close>
  (half the smallest subnormal) is \<open>0.0\<close>; a result of magnitude \<open>DBL_OVERFLOW\<close> or
  more (the largest double plus half a unit in its last place) is infinite, or an
  exception. This is modelled at every product, quotient and power from which a rate or
  an elevation is computed.

  \<^emph>\<open>Precision.\<close> \<open>round_double\<close> rounds a real to the nearest double, ties to even.
  It is applied where a float is turned into an integer (the burst budget of the telemetry
  producer), because there the last bit of a product decides a whole packet. Everywhere
  else a result inside the range is kept exact: the library functions \<^verbatim>\<open>sin\<close> and
  \<^verbatim>\<open>pow\<close> are not bound to a rounding by their specification, so the last bits of a
  rate are not determined by the source. \<open>DBL_MIN\<close> is the smallest normal double and
  \<open>DBL_HUGE\<close> the largest power of two among the doubles; for a result of magnitude
  between them the model and the code agree on whether it is zero and whether it is finite.

  The outcomes of the source that are not a finite float are values of \<open>py_error\<close>:
  the exceptions it raises, \<open>NegativeBase\<close> for a power of a negative base (never
  reached: every base is clamped to \<open>[0, 1]\<close> first), and \<open>NonFinite\<close> for a float
  result that is infinite, which the source carries on as \<^verbatim>\<open>inf\<close> and the model does
  not follow further.
\<close>

datatype py_error = ZeroDivisionError | OverflowError | ValueError | NegativeBase | NonFinite

definition DBL_OVERFLOW :: real where "DBL_OVERFLOW = 2 ^ 1024 - 2 ^ 970"
definition DBL_UNDERFLOW :: real where "DBL_UNDERFLOW = 2 powi (- 1075)"
definition DBL_MIN :: real where "DBL_MIN = 2 powi (- 1022)"
definition DBL_HUGE :: real where "DBL_HUGE = 2 ^ 1023"

text \<open>The value of a result as far as underflow goes: \<open>0.0\<close> when it is too small.\<close>

definition underflow :: "real \<Rightarrow> real" where
  "underflow z = (if \<bar>z\<bar> \<le> DBL_UNDERFLOW then 0 else z)"

text \<open>
  \<^verbatim>\<open>x * y\<close> on floats, range only. An operand of magnitude \<open>DBL_OVERFLOW\<close> or more
  is not a double; the product is then left as it is.
\<close>

definition float_mul :: "real \<Rightarrow> real \<Rightarrow> py_error + real" where
  "float_mul x y =
     (if \<bar>x\<bar> < DBL_OVERFLOW \<and> \<bar>y\<bar> < DBL_OVERFLOW \<and> DBL_OVERFLOW \<le> \<bar>x * y\<bar> then Inl NonFinite
      else Inr (underflow (x * y)))"




text \<open>
  \<^verbatim>\<open>x ** y\<close> on floats. Python returns \<open>1.0\<close> for every base when the exponent is
  zero, \<open>0.0\<close> for \<open>0.0 ** y\<close> with \<open>y > 0\<close>, and raises \<^verbatim>\<open>ZeroDivisionError\<close> for
  \<open>0.0 ** y\<close> with \<open>y < 0\<close>. HOL's \<open>powr\<close> has \<open>0 powr y = 0\<close> for every \<open>y\<close>, so
  the cases are written out. For a positive base the result raises
  \<^verbatim>\<open>OverflowError\<close> when it is too large and is \<open>0.0\<close> when it is too small.
\<close>

definition float_pow :: "real \<Rightarrow> real \<Rightarrow> py_error + real" where
  "float_pow x y =
     (if y = 0 then Inr 1
      else if x = 0 then (if y < 0 then Inl ZeroDivisionError else Inr 0)
      else if x < 0 then Inl NegativeBase
      else
        let p = x powr y
        in if DBL_OVERFLOW \<le> p then Inl OverflowError else Inr (underflow p))"

section \<open>Orbit, visibility and link budget (orbit\_leo.py)\<close>




text \<open>\<^verbatim>\<open>math.radians\<close>: the product of the angle and \<open>pi / 180\<close>.\<close>

definition radians :: "real \<Rightarrow> real" where
  "radians d = underflow (d * pi / 180)"

text \<open>
  \<^verbatim>\<open>data_rate_mbps(elev_deg, max_rate_mbps, alpha, elev_mask_deg)\<close>: zero at or
  below the mask, otherwise the maximum rate scaled by the clamped sine of the elevation
  raised to \<open>alpha\<close>. The power is Python's, so the call can raise; the product can
  underflow to 0 and overflow to infinity.
\<close>

definition data_rate_mbps :: "real \<Rightarrow> real \<Rightarrow> real \<Rightarrow> real \<Rightarrow> py_error + real" where
  "data_rate_mbps elev_deg max_rate_mbps alpha elev_mask =
     (if elev_deg \<le> elev_mask then Inr 0
      else
        let e_rad = radians elev_deg;
            norm0 = sin e_rad;
            norm1 = (if norm0 < 0 then 0 else norm0);
            norm2 = (if norm1 > 1 then 1 else norm1)
        in case float_pow norm2 alpha of
             Inl err \<Rightarrow> Inl err
           | Inr p \<Rightarrow> float_mul max_rate_mbps p)"

record GeometryState =
  ts :: real
  elev_deg :: real
  doppler_hz :: real
  visible :: bool
  rate_dl_mbps :: real
  rate_ul_mbps :: real




text \<open>The clamp the specification writes as \<open>clamp(x, 0, 1)\<close>.\<close>

definition clamp01 :: "real \<Rightarrow> real" where
  "clamp01 x = max 0 (min 1 x)"

section \<open>RF channel (rf\_channel\_leo.py)\<close>

text \<open>
  The channel's parameters are module-level constants; they are taken as a record so
  that a channel can be configured, and \<open>default_ChannelConfig\<close> holds the values of
  the source.
\<close>

record ChannelConfig =
  PROPAGATION_DELAY_S :: real
  BASE_PACKET_LOSS :: real
  BASE_BIT_ERROR :: real
  BASE_DUPLICATE :: real
  BURST_FADE_START_PROB :: real
  BURST_FADE_LENGTH_PKTS :: int

definition default_ChannelConfig :: ChannelConfig where
  "default_ChannelConfig =
     \<lparr> PROPAGATION_DELAY_S = 0.25,
       BASE_PACKET_LOSS = 0.08,
       BASE_BIT_ERROR = 0.02,
       BASE_DUPLICATE = 0.002,
       BURST_FADE_START_PROB = 0.0015,
       BURST_FADE_LENGTH_PKTS = 25 \<rparr>"

text \<open>The channel of scenario S4: a fade starts with certainty and lasts 3 packets.\<close>

definition S4_ChannelConfig :: ChannelConfig where
  "S4_ChannelConfig = default_ChannelConfig\<lparr>BURST_FADE_START_PROB := 1.0, BURST_FADE_LENGTH_PKTS := 3\<rparr>"

text \<open>A channel in which every base probability is 0.\<close>

definition lossless_ChannelConfig :: ChannelConfig where
  "lossless_ChannelConfig =
     default_ChannelConfig\<lparr>BASE_PACKET_LOSS := 0, BASE_BIT_ERROR := 0, BASE_DUPLICATE := 0,
       BURST_FADE_START_PROB := 0\<rparr>"

text \<open>
  What a thread of the simulator changes besides its own variables: the channel's two
  globals \<^verbatim>\<open>_in_fade\<close> and \<^verbatim>\<open>_fade_remaining\<close>, how many numbers it has drawn from
  \<^verbatim>\<open>random.random()\<close>, and the total time it has spent in \<^verbatim>\<open>time.sleep\<close>.
  The generator itself is a fixed sequence \<open>rng\<close> of draws; \<open>rng_ok\<close> says that
  every draw lies in \<open>[0, 1)\<close>, as \<^verbatim>\<open>random.random()\<close> promises.
\<close>

record rf_world =
  in_fade :: bool
  fade_remaining :: int
  rng_pos :: nat
  slept :: real

definition initial_world :: rf_world where
  "initial_world = \<lparr> in_fade = False, fade_remaining = 0, rng_pos = 0, slept = 0 \<rparr>"

definition rng_ok :: "(nat \<Rightarrow> real) \<Rightarrow> bool" where
  "rng_ok rng = (\<forall>n. 0 \<le> rng n \<and> rng n < 1)"

text \<open>The generator whose every draw is the same number.\<close>

definition draws_const :: "real \<Rightarrow> nat \<Rightarrow> real" where
  "draws_const r n = r"

definition random_random :: "(nat \<Rightarrow> real) \<Rightarrow> rf_world \<Rightarrow> real \<times> rf_world" where
  "random_random rng w = (rng (rng_pos w), w\<lparr>rng_pos := Suc (rng_pos w)\<rparr>)"

definition time_sleep :: "real \<Rightarrow> rf_world \<Rightarrow> rf_world" where
  "time_sleep d w = w\<lparr>slept := slept w + d\<rparr>"

text \<open>
  \<^verbatim>\<open>str.lower()\<close> on ASCII letters, and \<^verbatim>\<open>str.strip()\<close>: the white space of
  Python below code point 256 is the space, the controls 9 to 13 and 28 to 31, U+0085 and
  U+00A0.
\<close>

definition lower_char :: "char \<Rightarrow> char" where
  "lower_char c =
     (let n = (of_char c :: nat) in if 65 \<le> n \<and> n \<le> 90 then char_of (n + 32) else c)"

definition lower :: "string \<Rightarrow> string" where
  "lower s = map lower_char s"

definition is_space :: "char \<Rightarrow> bool" where
  "is_space c =
     (let n = (of_char c :: nat)
      in n = 32 \<or> (9 \<le> n \<and> n \<le> 13) \<or> (28 \<le> n \<and> n \<le> 31) \<or> n = 133 \<or> n = 160)"

definition strip :: "string \<Rightarrow> string" where
  "strip s = rev (dropWhile is_space (rev (dropWhile is_space s)))"

text \<open>
  \<^verbatim>\<open>_link_quality_from_elev(elev_deg, elev_mask)\<close>: the elevation mapped to a
  quality in \<open>[0, 1]\<close>; \<open>propagate\<close> calls it with the default mask of 10 degrees.
\<close>

definition link_quality_from_elev :: "real \<Rightarrow> real \<Rightarrow> real" where
  "link_quality_from_elev elev elev_mask =
     (if elev \<le> elev_mask then 0
      else
        let q0 = (elev - elev_mask) / (90 - elev_mask);
            q1 = (if q0 < 0 then 0 else q0);
            q2 = (if q1 > 1 then 1 else q1)
        in q2)"

text \<open>
  \<^verbatim>\<open>propagate(packet, elev_deg, direction)\<close>. The result \<open>None\<close> is the source's
  \<^verbatim>\<open>None\<close> (the packet is dropped). The bases \<open>1 - q\<close> of the two powers lie in
  \<open>[0, 1]\<close> and the exponents are positive literals, where Python's power is \<open>powr\<close>.
\<close>

definition propagate ::
  "ChannelConfig \<Rightarrow> (nat \<Rightarrow> real) \<Rightarrow> rf_world \<Rightarrow> packet \<Rightarrow> real \<Rightarrow> string
     \<Rightarrow> packet option \<times> rf_world" where
  "propagate cfg rng w packet elev direction =
     (let w0 = time_sleep (PROPAGATION_DELAY_S cfg) w;
          q = link_quality_from_elev elev 10;
          fade_start = BURST_FADE_START_PROB cfg * (1 + (1 - q) * 3)
      in if in_fade w0 then
           (let w1 = w0\<lparr>fade_remaining := fade_remaining w0 - 1\<rparr>;
                w2 = (if fade_remaining w1 \<le> 0 then w1\<lparr>in_fade := False\<rparr> else w1)
            in (None, w2))
         else
           (let (u1, w1) = random_random rng w0 in
            if u1 < fade_start then
              (None, w1\<lparr>in_fade := True, fade_remaining := BURST_FADE_LENGTH_PKTS cfg\<rparr>)
            else
              (let loss_p0 = BASE_PACKET_LOSS cfg * (1 - q) powr 1.6;
                   loss_p = (if lower direction = ''uplink'' then loss_p0 * 1.15 else loss_p0);
                   (u2, w2) = random_random rng w1
               in if u2 < loss_p then (None, w2)
                  else
                    (let out0 = packet;
                         ber_p0 = BASE_BIT_ERROR cfg * (1 - q) powr 2;
                         ber_p = (if lower direction = ''uplink'' then ber_p0 * 1.10 else ber_p0);
                         (u3, w3) = random_random rng w2;
                         out1 =
                           (if u3 < ber_p then
                              out0(''corrupted'' \<mapsto> PBool True, ''rf_note'' \<mapsto> PStr ''bit_error'')
                            else
                              out0(''corrupted'' \<mapsto>
                                     PBool (truthy (dict_get out0 ''corrupted'' (PBool False)))));
                         dup_p = BASE_DUPLICATE cfg * (1 + (1 - q));
                         (u4, w4) = random_random rng w3;
                         out2 =
                           (if u4 < dup_p then out1(''duplicated'' \<mapsto> PBool True)
                            else out1(''duplicated'' \<mapsto> PBool False))
                     in (Some out2, w4)))))"

text \<open>A sequence of calls on one channel; each call is (packet, elevation, direction).\<close>

fun propagate_calls ::
  "ChannelConfig \<Rightarrow> (nat \<Rightarrow> real) \<Rightarrow> rf_world \<Rightarrow> (packet \<times> real \<times> string) list
     \<Rightarrow> packet option list \<times> rf_world" where
  "propagate_calls cfg rng w [] = ([], w)"
| "propagate_calls cfg rng w ((packet, elev, direction) # cs) =
     (let (r, w1) = propagate cfg rng w packet elev direction;
          (rs, w2) = propagate_calls cfg rng w1 cs
      in (r # rs, w2))"

subsection \<open>The same function over a store of objects\<close>

text \<open>
  Python passes the packet by reference. To say what \<^verbatim>\<open>propagate\<close> does to the
  caller's object, dicts live in a store: an address is an index into the list of
  objects, \<^verbatim>\<open>dict(packet)\<close> allocates a new object holding a copy, and
  \<^verbatim>\<open>out[k] = v\<close> updates the object at the address \<open>out\<close>. The function returns the
  address of the result.
\<close>

type_synonym store = "packet list"

definition dict_copy :: "store \<Rightarrow> nat \<Rightarrow> nat \<times> store" where
  "dict_copy h a = (length h, h @ [h ! a])"

definition setitem :: "store \<Rightarrow> nat \<Rightarrow> string \<Rightarrow> pyval \<Rightarrow> store" where
  "setitem h a k v = h[a := (h ! a)(k \<mapsto> v)]"

definition propagate_store ::
  "ChannelConfig \<Rightarrow> (nat \<Rightarrow> real) \<Rightarrow> rf_world \<times> store \<Rightarrow> nat \<Rightarrow> real \<Rightarrow> string
     \<Rightarrow> nat option \<times> rf_world \<times> store" where
  "propagate_store cfg rng wh packet elev direction =
     (let (w, h) = wh;
          w0 = time_sleep (PROPAGATION_DELAY_S cfg) w;
          q = link_quality_from_elev elev 10;
          fade_start = BURST_FADE_START_PROB cfg * (1 + (1 - q) * 3)
      in if in_fade w0 then
           (let w1 = w0\<lparr>fade_remaining := fade_remaining w0 - 1\<rparr>;
                w2 = (if fade_remaining w1 \<le> 0 then w1\<lparr>in_fade := False\<rparr> else w1)
            in (None, w2, h))
         else
           (let (u1, w1) = random_random rng w0 in
            if u1 < fade_start then
              (None, w1\<lparr>in_fade := True, fade_remaining := BURST_FADE_LENGTH_PKTS cfg\<rparr>, h)
            else
              (let loss_p0 = BASE_PACKET_LOSS cfg * (1 - q) powr 1.6;
                   loss_p = (if lower direction = ''uplink'' then loss_p0 * 1.15 else loss_p0);
                   (u2, w2) = random_random rng w1
               in if u2 < loss_p then (None, w2, h)
                  else
                    (let (out, h0) = dict_copy h packet;
                         ber_p0 = BASE_BIT_ERROR cfg * (1 - q) powr 2;
                         ber_p = (if lower direction = ''uplink'' then ber_p0 * 1.10 else ber_p0);
                         (u3, w3) = random_random rng w2;
                         h1 =
                           (if u3 < ber_p then
                              setitem (setitem h0 out ''corrupted'' (PBool True))
                                out ''rf_note'' (PStr ''bit_error'')
                            else
                              setitem h0 out ''corrupted''
                                (PBool (truthy (dict_get (h0 ! out) ''corrupted'' (PBool False)))));
                         dup_p = BASE_DUPLICATE cfg * (1 + (1 - q));
                         (u4, w4) = random_random rng w3;
                         h2 =
                           (if u4 < dup_p then setitem h1 out ''duplicated'' (PBool True)
                            else setitem h1 out ''duplicated'' (PBool False))
                     in (Some out, w4, h2)))))"


section \<open>Ground baseband unit (bbu\_leo.py)\<close>

text \<open>
  Each thread of the node is a loop; one pass through the loop body is a step function
  on the node's state. What a step reads from outside (a datagram, the geometry state
  returned by \<^verbatim>\<open>DEFAULT_ORBIT.get_state()\<close>, the wall clock) is an argument. What it
  writes to a socket or prints is appended to a trace in the state.
\<close>

datatype bbu_print =
    TM_RX_LIVE
  | TM_RX_HIST
  | TC_queued_from_Web string
  | TC_queued_waiting_visibility
  | TC_DROP_RF string
  | TC_CORRUPTED_still_sent string
  | TC_SENT_to_satellite string

record bbu_state =
  telemetry_live :: "string list"
  telemetry_history :: "string list"
  telecommand_queue :: "string list"
  udp_to_sat :: "string list"
  bbu_printed :: "bbu_print list"

definition bbu_initial :: bbu_state where
  "bbu_initial =
     \<lparr> telemetry_live = [], telemetry_history = [], telecommand_queue = [],
       udp_to_sat = [], bbu_printed = [] \<rparr>"

text \<open>The slice \<^verbatim>\<open>xs[-n:]\<close> for a positive \<open>n\<close>: the last \<open>n\<close> elements.\<close>

definition slice_last :: "nat \<Rightarrow> 'a list \<Rightarrow> 'a list" where
  "slice_last n xs = drop (length xs - n) xs"

text \<open>
  One pass of \<^verbatim>\<open>tm_receiver\<close>: \<open>raw\<close> is the decoded datagram and \<open>vis\<close> what
  \<^verbatim>\<open>DEFAULT_ORBIT.is_visible()\<close> returns at that moment. The buffers are module
  globals that other threads read without a lock, so each statement that writes one is a
  step of its own: the append, and the slice assignment under its length test.
\<close>

definition tm_append_history :: "bbu_state \<Rightarrow> string \<Rightarrow> bbu_state" where
  "tm_append_history s raw = s\<lparr>telemetry_history := telemetry_history s @ [raw]\<rparr>"

definition tm_trim_history :: "bbu_state \<Rightarrow> bbu_state" where
  "tm_trim_history s =
     (if length (telemetry_history s) > 5000
      then s\<lparr>telemetry_history := slice_last 5000 (telemetry_history s)\<rparr> else s)"

definition tm_append_live :: "bbu_state \<Rightarrow> string \<Rightarrow> bbu_state" where
  "tm_append_live s raw = s\<lparr>telemetry_live := telemetry_live s @ [raw]\<rparr>"

definition tm_trim_live :: "bbu_state \<Rightarrow> bbu_state" where
  "tm_trim_live s =
     (if length (telemetry_live s) > 2000
      then s\<lparr>telemetry_live := slice_last 2000 (telemetry_live s)\<rparr> else s)"

definition tm_receiver :: "bbu_state \<Rightarrow> string \<Rightarrow> bool \<Rightarrow> bbu_state" where
  "tm_receiver s raw vis =
     (let s1 = tm_append_history s raw;
          s2 = tm_trim_history s1
      in if vis then
           (let s3 = tm_append_live s2 raw;
                s4 = tm_trim_live s3
            in s4\<lparr>bbu_printed := bbu_printed s4 @ [TM_RX_LIVE]\<rparr>)
         else s2\<lparr>bbu_printed := bbu_printed s2 @ [TM_RX_HIST]\<rparr>)"

text \<open>
  The states the node passes through during one pass, in order: what another thread can
  see. The last one is the result of the pass.
\<close>

definition tm_receiver_states :: "bbu_state \<Rightarrow> string \<Rightarrow> bool \<Rightarrow> bbu_state list" where
  "tm_receiver_states s raw vis =
     (let s1 = tm_append_history s raw;
          s2 = tm_trim_history s1
      in if vis then
           (let s3 = tm_append_live s2 raw;
                s4 = tm_trim_live s3
            in [s1, s2, s3, s4, s4\<lparr>bbu_printed := bbu_printed s4 @ [TM_RX_LIVE]\<rparr>])
         else [s1, s2, s2\<lparr>bbu_printed := bbu_printed s2 @ [TM_RX_HIST]\<rparr>])"

text \<open>One accepted connection of \<^verbatim>\<open>tc_receiver_from_web\<close>; \<open>data\<close> is what was received.\<close>

definition tc_receiver_from_web :: "bbu_state \<Rightarrow> string \<Rightarrow> bbu_state" where
  "tc_receiver_from_web s data =
     (let tc = strip data
      in if tc \<noteq> [] then
           s\<lparr>telecommand_queue := telecommand_queue s @ [tc],
             bbu_printed := bbu_printed s @ [TC_queued_from_Web tc]\<rparr>
         else s)"

text \<open>
  One pass of the loop of \<^verbatim>\<open>tc_sender\<close>. \<open>st\<close> is the geometry state read when the
  queue is not empty and \<open>now\<close> the result of \<^verbatim>\<open>time.time()\<close>.
\<close>

definition tc_sender ::
  "ChannelConfig \<Rightarrow> (nat \<Rightarrow> real) \<Rightarrow> GeometryState \<Rightarrow> real \<Rightarrow> bbu_state \<times> rf_world
     \<Rightarrow> bbu_state \<times> rf_world" where
  "tc_sender cfg rng st now sw =
     (let (s, w) = sw in
      case telecommand_queue s of
        [] \<Rightarrow> (s, time_sleep 0.2 w)
      | tc # rest \<Rightarrow>
          if \<not> visible st then
            (s\<lparr>bbu_printed := bbu_printed s @ [TC_queued_waiting_visibility]\<rparr>, time_sleep 0.8 w)
          else
            (let s1 = s\<lparr>telecommand_queue := rest\<rparr>;
                 pkt = [''type'' \<mapsto> PStr ''TC'', ''cmd'' \<mapsto> PStr tc, ''ts'' \<mapsto> PFloat now,
                        ''corrupted'' \<mapsto> PBool False];
                 (pkt2, w1) = propagate cfg rng w pkt (elev_deg st) ''uplink''
             in case pkt2 of
                  None \<Rightarrow> (s1\<lparr>bbu_printed := bbu_printed s1 @ [TC_DROP_RF tc]\<rparr>, w1)
                | Some p \<Rightarrow>
                    (let s2 = (if truthy (dict_get p ''corrupted'' PNone)
                               then s1\<lparr>bbu_printed := bbu_printed s1 @ [TC_CORRUPTED_still_sent tc]\<rparr>
                               else s1);
                         s3 = s2\<lparr>udp_to_sat := udp_to_sat s2 @ [tc]\<rparr>;
                         s4 = s3\<lparr>bbu_printed := bbu_printed s3 @ [TC_SENT_to_satellite tc]\<rparr>
                     in (s4, time_sleep 0.2 w1))))"

text \<open>
  The uplink side of the node over time: commands arriving from the web client and passes
  of the sender loop, in any interleaving.
\<close>

datatype bbu_event = WebTC string | SenderPass GeometryState real

fun bbu_uplink_run ::
  "ChannelConfig \<Rightarrow> (nat \<Rightarrow> real) \<Rightarrow> bbu_state \<times> rf_world \<Rightarrow> bbu_event list
     \<Rightarrow> bbu_state \<times> rf_world" where
  "bbu_uplink_run cfg rng sw [] = sw"
| "bbu_uplink_run cfg rng sw (WebTC data # evs) =
     bbu_uplink_run cfg rng (tc_receiver_from_web (fst sw) data, snd sw) evs"
| "bbu_uplink_run cfg rng sw (SenderPass st now # evs) =
     bbu_uplink_run cfg rng (tc_sender cfg rng st now sw) evs"

text \<open>The commands that a sequence of events adds to the queue, in order.\<close>

fun enqueued :: "bbu_event list \<Rightarrow> string list" where
  "enqueued [] = []"
| "enqueued (WebTC data # evs) = (if strip data \<noteq> [] then strip data # enqueued evs else enqueued evs)"
| "enqueued (SenderPass st now # evs) = enqueued evs"

text \<open>The datagrams of a run of \<^verbatim>\<open>tm_receiver\<close>, each with the visibility at its arrival.\<close>

fun tm_receiver_run :: "bbu_state \<Rightarrow> (string \<times> bool) list \<Rightarrow> bbu_state" where
  "tm_receiver_run s [] = s"
| "tm_receiver_run s ((raw, vis) # ds) = tm_receiver_run (tm_receiver s raw vis) ds"

section \<open>Spacecraft (satellite\_leo.py)\<close>


datatype sat_print =
    TM_gen_NOT_visible real real
  | DOWNLINK real real int
  | TC_RECEIVED_queued string
  | TC_LOST_RF string
  | TC_CORRUPTED_ignored string
  | TC_EXECUTED string

text \<open>
  \<open>seq\<close> is the local counter of \<^verbatim>\<open>telemetry_sender\<close>; \<open>udp_to_bbu\<close> holds the
  packets handed to \<^verbatim>\<open>sock.sendto\<close> (as dicts, before \<^verbatim>\<open>json.dumps\<close>).
\<close>

record sat_state =
  seq :: int
  tc_queue :: "string list"
  udp_to_bbu :: "packet list"
  sat_printed :: "sat_print list"

definition sat_initial :: sat_state where
  "sat_initial = \<lparr> seq = 0, tc_queue = [], udp_to_bbu = [], sat_printed = [] \<rparr>"




text \<open>One datagram of \<^verbatim>\<open>telecommand_receiver\<close>.\<close>

definition telecommand_receiver :: "sat_state \<Rightarrow> string \<Rightarrow> sat_state" where
  "telecommand_receiver s data =
     (let cmd = strip data
      in s\<lparr>tc_queue := tc_queue s @ [cmd], sat_printed := sat_printed s @ [TC_RECEIVED_queued cmd]\<rparr>)"

text \<open>One pass of the loop of \<^verbatim>\<open>telecommand_executor\<close>.\<close>

definition telecommand_executor ::
  "ChannelConfig \<Rightarrow> (nat \<Rightarrow> real) \<Rightarrow> GeometryState \<Rightarrow> real \<Rightarrow> sat_state \<times> rf_world
     \<Rightarrow> sat_state \<times> rf_world" where
  "telecommand_executor cfg rng st now sw =
     (let (s, w) = sw
      in if \<not> visible st then (s, time_sleep 0.5 w)
         else
           (case tc_queue s of
              [] \<Rightarrow> (s, time_sleep 0.2 w)
            | cmd # rest \<Rightarrow>
                (let s1 = s\<lparr>tc_queue := rest\<rparr>;
                     pkt = [''type'' \<mapsto> PStr ''TC'', ''cmd'' \<mapsto> PStr cmd, ''ts'' \<mapsto> PFloat now,
                            ''corrupted'' \<mapsto> PBool False];
                     (pkt2, w1) = propagate cfg rng w pkt (elev_deg st) ''uplink''
                 in case pkt2 of
                      None \<Rightarrow> (s1\<lparr>sat_printed := sat_printed s1 @ [TC_LOST_RF cmd]\<rparr>, w1)
                    | Some p \<Rightarrow>
                        if truthy (dict_get p ''corrupted'' PNone) then
                          (s1\<lparr>sat_printed := sat_printed s1 @ [TC_CORRUPTED_ignored cmd]\<rparr>, w1)
                        else
                          (s1\<lparr>sat_printed := sat_printed s1 @ [TC_EXECUTED cmd]\<rparr>, w1))))"



section \<open>Properties of the floating-point operations\<close>

lemma DBL_UNDERFLOW_pos: "0 < DBL_UNDERFLOW"
  by (simp add: DBL_UNDERFLOW_def)

lemma DBL_UNDERFLOW_less_MIN: "DBL_UNDERFLOW < DBL_MIN"
  by (simp add: DBL_UNDERFLOW_def DBL_MIN_def power_int_minus field_simps)

lemma DBL_MIN_small: "DBL_MIN < 1 / 2 ^ 20"
  by (simp add: DBL_MIN_def power_int_minus field_simps)

lemma DBL_OVERFLOW_large: "DBL_HUGE < DBL_OVERFLOW"
  by (simp add: DBL_OVERFLOW_def DBL_HUGE_def)

lemma DBL_HUGE_large: "2 ^ 20 \<le> DBL_HUGE"
  by (simp add: DBL_HUGE_def)

lemma DBL_OVERFLOW_gt: "2 ^ 20 < DBL_OVERFLOW"
  using DBL_HUGE_large DBL_OVERFLOW_large by simp

lemma DBL_UNDERFLOW_small: "DBL_UNDERFLOW < 1 / 2 ^ 20"
  using DBL_UNDERFLOW_less_MIN DBL_MIN_small by simp

lemma underflow_zero [simp]: "underflow 0 = 0"
  by (simp add: underflow_def)

lemma underflow_id: "DBL_UNDERFLOW < \<bar>z\<bar> \<Longrightarrow> underflow z = z"
  by (simp add: underflow_def)

lemma underflow_id_MIN: "DBL_MIN \<le> \<bar>z\<bar> \<Longrightarrow> underflow z = z"
  using DBL_UNDERFLOW_less_MIN by (simp add: underflow_def)

lemma underflow_id_big: "1 / 2 ^ 20 \<le> \<bar>z\<bar> \<Longrightarrow> underflow z = z"
  using DBL_UNDERFLOW_small by (simp add: underflow_def)

lemma underflow_mono: "x \<le> y \<Longrightarrow> underflow x \<le> underflow y"
  using DBL_UNDERFLOW_pos by (auto simp: underflow_def abs_if split: if_splits)

lemma underflow_nonneg: "0 \<le> z \<Longrightarrow> 0 \<le> underflow z"
  by (simp add: underflow_def)

lemma underflow_le: "0 \<le> z \<Longrightarrow> underflow z \<le> z"
  by (simp add: underflow_def)

lemma float_pow_value:
  assumes "0 < x \<or> (0 \<le> x \<and> 0 \<le> a)"
    and "(if a = 0 then 1 else x powr a) = 0 \<or> DBL_MIN \<le> (if a = 0 then 1 else x powr a)"
    and "(if a = 0 then 1 else x powr a) \<le> DBL_HUGE"
  shows "float_pow x a = Inr (if a = 0 then 1 else x powr a)"
proof (cases "a = 0")
  case True
  then show ?thesis by (simp add: float_pow_def)
next
  case False
  show ?thesis
  proof (cases "x = 0")
    case True
    with False assms(1) show ?thesis by (simp add: float_pow_def)
  next
    case x: False
    with assms(1) have pos: "0 < x" by auto
    then have "x powr a \<noteq> 0" by simp
    with False assms(2) have "DBL_MIN \<le> \<bar>x powr a\<bar>" by simp
    then have u: "underflow (x powr a) = x powr a" by (rule underflow_id_MIN)
    have "x powr a < DBL_OVERFLOW"
      using False assms(3) DBL_OVERFLOW_large by simp
    with False pos u show ?thesis by (simp add: float_pow_def Let_def)
  qed
qed

lemma float_pow_mono:
  assumes "0 \<le> a" "0 \<le> x" "x \<le> y" "y \<le> 1"
  shows "\<exists>p q. float_pow x a = Inr p \<and> float_pow y a = Inr q \<and> 0 \<le> p \<and> p \<le> q \<and> q \<le> 1"
proof (cases "a = 0")
  case True
  then show ?thesis by (simp add: float_pow_def)
next
  case False
  have le1: "z powr a \<le> 1" if "0 \<le> z" "z \<le> 1" for z
    using powr_mono2 [of a z 1] that assms(1) by simp
  have nover: "\<not> DBL_OVERFLOW \<le> z powr a" if "0 \<le> z" "z \<le> 1" for z
    using le1 [OF that] DBL_OVERFLOW_gt by simp
  have val: "float_pow z a = Inr (underflow (z powr a))" if "0 \<le> z" "z \<le> 1" for z
    using that False assms(1) nover [OF that]
    by (cases "z = 0") (simp_all add: float_pow_def Let_def)
  have m: "x powr a \<le> y powr a" using assms by (intro powr_mono2)
  have x1: "x \<le> 1" using assms by simp
  have y0: "0 \<le> y" using assms by simp
  have "underflow (x powr a) \<le> underflow (y powr a)" using m by (rule underflow_mono)
  moreover have "0 \<le> underflow (x powr a)" by (simp add: underflow_nonneg)
  moreover have "underflow (y powr a) \<le> 1"
    using underflow_le [of "y powr a"] le1 [OF y0 assms(4)] by simp
  ultimately show ?thesis
    using val [OF assms(2) x1] val [OF y0 assms(4)] by simp
qed

lemma float_mul_small:
  assumes "0 \<le> p" "p \<le> 1"
  shows "float_mul m p = Inr (underflow (m * p))"
proof -
  have "\<bar>m * p\<bar> \<le> \<bar>m\<bar>"
    using assms by (simp add: abs_mult mult_left_le)
  then have "\<not> (\<bar>m\<bar> < DBL_OVERFLOW \<and> DBL_OVERFLOW \<le> \<bar>m * p\<bar>)" by simp
  then show ?thesis by (auto simp: float_mul_def)
qed

lemma float_mul_value:
  assumes "m * p = 0 \<or> DBL_MIN \<le> \<bar>m * p\<bar>" "\<bar>m * p\<bar> \<le> DBL_HUGE"
  shows "float_mul m p = Inr (m * p)"
proof -
  have "underflow (m * p) = m * p"
    using assms(1) underflow_id_MIN [of "m * p"] by auto
  moreover have "\<bar>m * p\<bar> < DBL_OVERFLOW" using assms(2) DBL_OVERFLOW_large by simp
  ultimately show ?thesis by (simp add: float_mul_def)
qed

section \<open>Properties of the link budget\<close>

lemma radians_90: "radians 90 = pi / 2"
proof -
  have "1 / 2 ^ 20 \<le> \<bar>pi / 2\<bar>" using pi_ge_two by (simp add: field_simps)
  then show ?thesis using underflow_id_big [of "pi / 2"] by (simp add: radians_def)
qed

lemma radians_30: "radians 30 = pi / 6"
proof -
  have "1 / 2 ^ 20 \<le> \<bar>pi / 6\<bar>" using pi_ge_two by (simp add: field_simps)
  then show ?thesis using underflow_id_big [of "pi / 6"] by (simp add: radians_def)
qed

lemma radians_m90: "radians (- 90) = - (pi / 2)"
proof -
  have "1 / 2 ^ 20 \<le> \<bar>- (pi / 2)\<bar>" using pi_ge_two by (simp add: field_simps)
  then show ?thesis using underflow_id_big [of "- (pi / 2)"] by (simp add: radians_def)
qed


lemma radians_mono: "x \<le> y \<Longrightarrow> radians x \<le> radians y"
  unfolding radians_def
  by (intro underflow_mono) (simp add: divide_right_mono mult_right_mono)

lemma clamp_ifs:
  "(if (if s < 0 then 0 else s) > 1 then 1 else (if s < 0 then 0 else s)) = clamp01 (s::real)"
  by (simp add: clamp01_def max_def min_def)

lemma data_rate_above:
  "k < e \<Longrightarrow>
   data_rate_mbps e m a k =
     (case float_pow (clamp01 (sin (radians e))) a of Inl err \<Rightarrow> Inl err | Inr p \<Rightarrow> float_mul m p)"
  by (simp add: data_rate_mbps_def Let_def clamp_ifs)

lemma data_rate_below: "e \<le> k \<Longrightarrow> data_rate_mbps e m a k = Inr 0"
  by (simp add: data_rate_mbps_def)

lemma clamp01_range: "0 \<le> clamp01 x" "clamp01 x \<le> 1"
  by (simp_all add: clamp01_def)

lemma clamp01_mono: "x \<le> y \<Longrightarrow> clamp01 x \<le> clamp01 y"
  by (simp add: clamp01_def max_def min_def)

lemma clamp01_pos: "0 < x \<Longrightarrow> 0 < clamp01 x"
  by (simp add: clamp01_def max_def min_def)



lemma data_rate_value:
  assumes "k < e" "0 < sin (radians e) \<or> 0 \<le> a"
    and P: "P = (if a = 0 then 1 else clamp01 (sin (radians e)) powr a)"
    and "P = 0 \<or> DBL_MIN \<le> P" "P \<le> DBL_HUGE"
    and "m * P = 0 \<or> DBL_MIN \<le> \<bar>m * P\<bar>" "\<bar>m * P\<bar> \<le> DBL_HUGE"
  shows "data_rate_mbps e m a k = Inr (m * P)"
proof -
  have "0 < clamp01 (sin (radians e)) \<or> (0 \<le> clamp01 (sin (radians e)) \<and> 0 \<le> a)"
    using assms(2) clamp01_pos clamp01_range(1) by blast
  then have "float_pow (clamp01 (sin (radians e))) a = Inr P"
    unfolding P using assms(4,5) unfolding P by (rule float_pow_value)
  moreover have "float_mul m P = Inr (m * P)"
    using assms(6,7) by (rule float_mul_value)
  ultimately show ?thesis using assms(1) by (simp add: data_rate_above)
qed

lemma data_rate_90:
  assumes "k < 90" "m = 0 \<or> DBL_MIN \<le> \<bar>m\<bar>"
  shows "data_rate_mbps 90 m a k = Inr m"
proof -
  have one: "float_pow 1 a = Inr 1"
    using underflow_id_big [of 1] DBL_OVERFLOW_gt
    by (simp add: float_pow_def Let_def)
  have "underflow m = m" using assms(2) underflow_id_MIN [of m] by auto
  then have "float_mul m 1 = Inr m" by (simp add: float_mul_def)
  with one assms(1) show ?thesis
    by (simp add: data_rate_above radians_90 clamp01_def)
qed




text \<open>
  Claim C7, amended. For a non-negative maximum rate and a non-negative exponent, the
  rate is monotonic non-decreasing in the elevation on \<open>[mask, 90]\<close> (within
  \<open>[-90, 90]\<close>), and the function returns there.
\<close>

theorem data_rate_monotone:
  assumes "0 \<le> m" "0 \<le> a" "k \<le> e1" "e1 \<le> e2" "- 90 \<le> e1" "e2 \<le> 90"
  shows "\<exists>r1 r2. data_rate_mbps e1 m a k = Inr r1 \<and> data_rate_mbps e2 m a k = Inr r2 \<and> r1 \<le> r2"
proof -
  have "radians (- 90) \<le> radians e1" "radians e1 \<le> radians e2" "radians e2 \<le> radians 90"
    using assms by (simp_all add: radians_mono)
  then have s: "sin (radians e1) \<le> sin (radians e2)"
    by (intro sin_monotone_2pi_le) (simp_all add: radians_90 radians_m90)
  then have c: "clamp01 (sin (radians e1)) \<le> clamp01 (sin (radians e2))"
    by (rule clamp01_mono)
  obtain p q where pq: "float_pow (clamp01 (sin (radians e1))) a = Inr p"
      "float_pow (clamp01 (sin (radians e2))) a = Inr q" "0 \<le> p" "p \<le> q" "q \<le> 1"
    using float_pow_mono [OF assms(2) clamp01_range(1) c clamp01_range(2)] by blast
  have q0: "0 \<le> q" and p1: "p \<le> 1" using pq by simp_all
  have mp: "float_mul m p = Inr (underflow (m * p))" using pq(3) p1 by (rule float_mul_small)
  have mq: "float_mul m q = Inr (underflow (m * q))" using q0 pq(5) by (rule float_mul_small)
  have le: "underflow (m * p) \<le> underflow (m * q)"
    using pq(4) assms(1) by (intro underflow_mono mult_left_mono)
  have nn: "0 \<le> underflow (m * q)"
    using q0 assms(1) by (intro underflow_nonneg mult_nonneg_nonneg)
  show ?thesis
  proof (cases "k < e1")
    case True
    with assms have "k < e2" by simp
    with True pq mp mq le show ?thesis
      by (simp add: data_rate_above)
  next
    case False
    with assms have e1: "e1 \<le> k" by simp
    show ?thesis
    proof (cases "k < e2")
      case True
      with e1 pq mq nn show ?thesis
        by (simp add: data_rate_above data_rate_below)
    next
      case False
      with e1 show ?thesis by (simp add: data_rate_below)
    qed
  qed
qed

theorem data_rate_monotone_witness:
  "\<exists>r1 r2. data_rate_mbps 30 (258 / 1000) (3 / 2) 10 = Inr r1 \<and>
      data_rate_mbps 60 (258 / 1000) (3 / 2) 10 = Inr r2 \<and> r1 \<le> r2"
  using data_rate_monotone [of "258 / 1000" "3 / 2" 10 30 60] by simp

text \<open>
  With the exponent \<open>-1\<close> the rate falls as the elevation rises: 2 at 30 degrees and
  1 at 90 degrees, for a maximum rate of 1 and a mask of 10.
\<close>

theorem data_rate_monotone_counterexample:
  "data_rate_mbps 30 1 (- 1) 10 = Inr 2 \<and> data_rate_mbps 90 1 (- 1) 10 = Inr 1"
proof -
  have small: "DBL_MIN \<le> 1 / 2 ^ 20" using DBL_MIN_small by simp
  have big: "2 ^ 20 \<le> DBL_HUGE" by (rule DBL_HUGE_large)
  have P: "(1 / 2 :: real) powr (- 1) = 2" by (simp add: powr_minus)
  have "data_rate_mbps 30 1 (- 1) 10 = Inr (1 * 2)"
  proof (rule data_rate_value)
    show "2 = (if (- 1 :: real) = 0 then 1 else clamp01 (sin (radians 30)) powr (- 1))"
      by (simp add: radians_30 sin_30 clamp01_def P)
    show "0 < sin (radians 30) \<or> (0::real) \<le> - 1" by (simp add: radians_30 sin_30)
  qed (use small big in simp_all)
  moreover have "data_rate_mbps 90 1 (- 1) 10 = Inr 1"
    by (rule data_rate_90) (use small in simp_all)
  ultimately show ?thesis by simp
qed

section \<open>Properties of the RF channel\<close>

lemma link_quality_range:
  "0 \<le> link_quality_from_elev e k \<and> link_quality_from_elev e k \<le> 1"
  by (simp add: link_quality_from_elev_def Let_def)

lemma fade_start_ge:
  assumes "0 \<le> b"
  shows "b \<le> b * (1 + (1 - link_quality_from_elev e k) * 3)"
proof -
  have "1 \<le> 1 + (1 - link_quality_from_elev e k) * 3"
    using link_quality_range [of e k] by simp
  then have "b * 1 \<le> b * (1 + (1 - link_quality_from_elev e k) * 3)"
    using assms by (rule mult_left_mono)
  then show ?thesis by simp
qed

lemma rng_ok_draws_const: "0 \<le> r \<Longrightarrow> r < 1 \<Longrightarrow> rng_ok (draws_const r)"
  by (simp add: rng_ok_def draws_const_def)

lemma propagate_fading:
  "in_fade w \<Longrightarrow>
   propagate cfg rng w p e d =
     (None, w\<lparr>slept := slept w + PROPAGATION_DELAY_S cfg,
               fade_remaining := fade_remaining w - 1,
               in_fade := (1 < fade_remaining w)\<rparr>)"
  by (simp add: propagate_def time_sleep_def Let_def)

lemma propagate_ignite:
  "\<not> in_fade w \<Longrightarrow>
   rng (rng_pos w) < BURST_FADE_START_PROB cfg * (1 + (1 - link_quality_from_elev e 10) * 3) \<Longrightarrow>
   propagate cfg rng w p e d =
     (None, w\<lparr>slept := slept w + PROPAGATION_DELAY_S cfg,
               rng_pos := Suc (rng_pos w),
               in_fade := True,
               fade_remaining := BURST_FADE_LENGTH_PKTS cfg\<rparr>)"
  by (simp add: propagate_def time_sleep_def random_random_def Let_def)


text \<open>A fade with \<open>n\<close> packets remaining drops the next \<open>n\<close> calls and is then over.\<close>

lemma fading_calls:
  "in_fade w \<Longrightarrow> fade_remaining w = int (length cs) \<Longrightarrow> cs \<noteq> [] \<Longrightarrow>
   propagate_calls cfg rng w cs =
     (replicate (length cs) None,
      w\<lparr>slept := slept w + real (length cs) * PROPAGATION_DELAY_S cfg,
        fade_remaining := 0, in_fade := False\<rparr>)"
proof (induction cs arbitrary: w)
  case Nil
  then show ?case by simp
next
  case (Cons c cs)
  obtain p e d where c: "c = (p, e, d)" by (cases c)
  show ?case
  proof (cases "cs = []")
    case True
    with Cons.prems c show ?thesis
      by (simp add: propagate_fading)
  next
    case False
    let ?w1 = "w\<lparr>slept := slept w + PROPAGATION_DELAY_S cfg,
               fade_remaining := fade_remaining w - 1,
               in_fade := (1 < fade_remaining w)\<rparr>"
    from False Cons.prems have "in_fade ?w1" "fade_remaining ?w1 = int (length cs)"
      by (cases cs; simp)+
    from Cons.IH [OF this False] Cons.prems c show ?thesis
      by (simp add: propagate_fading algebra_simps)
  qed
qed

text \<open>While fewer calls than the remaining count have been made, the fade is still active.\<close>

lemma fading_calls_partial:
  "in_fade w \<Longrightarrow> int (length cs) < fade_remaining w \<Longrightarrow>
   fst (propagate_calls cfg rng w cs) = replicate (length cs) None \<and>
   in_fade (snd (propagate_calls cfg rng w cs)) \<and>
   fade_remaining (snd (propagate_calls cfg rng w cs)) = fade_remaining w - int (length cs)"
proof (induction cs arbitrary: w)
  case Nil
  then show ?case by simp
next
  case (Cons c cs)
  obtain p e d where c: "c = (p, e, d)" by (cases c)
  let ?w1 = "w\<lparr>slept := slept w + PROPAGATION_DELAY_S cfg,
             fade_remaining := fade_remaining w - 1,
             in_fade := (1 < fade_remaining w)\<rparr>"
  from Cons.prems have "in_fade ?w1" "int (length cs) < fade_remaining ?w1"
    by simp_all
  from Cons.IH [OF this] Cons.prems c show ?case
    by (auto simp: propagate_fading split: prod.splits)
qed


lemma ignite_then_fade:
  assumes clear: "\<not> in_fade w"
    and len: "1 \<le> BURST_FADE_LENGTH_PKTS cfg"
    and draw: "rng (rng_pos w) < BURST_FADE_START_PROB cfg * (1 + (1 - link_quality_from_elev e 10) * 3)"
    and n: "int (length cs) = BURST_FADE_LENGTH_PKTS cfg"
  shows "propagate_calls cfg rng w ((p, e, d) # cs) =
        (replicate (Suc (length cs)) None,
         w\<lparr>slept := slept w + real (Suc (length cs)) * PROPAGATION_DELAY_S cfg,
           rng_pos := Suc (rng_pos w), in_fade := False, fade_remaining := 0\<rparr>)"
proof -
  let ?w1 = "w\<lparr>slept := slept w + PROPAGATION_DELAY_S cfg, rng_pos := Suc (rng_pos w),
               in_fade := True, fade_remaining := BURST_FADE_LENGTH_PKTS cfg\<rparr>"
  have first: "propagate cfg rng w p e d = (None, ?w1)"
    using clear draw by (rule propagate_ignite)
  from len n have ne: "cs \<noteq> []" by auto
  have "in_fade ?w1" "fade_remaining ?w1 = int (length cs)" using n by simp_all
  from fading_calls [OF this ne, of cfg rng] first show ?thesis
    by (simp add: algebra_simps)
qed

lemma ignite_then_fade_partial:
  assumes clear: "\<not> in_fade w"
    and draw: "rng (rng_pos w) < BURST_FADE_START_PROB cfg * (1 + (1 - link_quality_from_elev e 10) * 3)"
    and n: "int (length cs) < BURST_FADE_LENGTH_PKTS cfg"
  shows "fst (propagate_calls cfg rng w ((p, e, d) # cs)) = replicate (Suc (length cs)) None \<and>
         in_fade (snd (propagate_calls cfg rng w ((p, e, d) # cs))) \<and>
         fade_remaining (snd (propagate_calls cfg rng w ((p, e, d) # cs))) =
           BURST_FADE_LENGTH_PKTS cfg - int (length cs)"
proof -
  let ?w1 = "w\<lparr>slept := slept w + PROPAGATION_DELAY_S cfg, rng_pos := Suc (rng_pos w),
               in_fade := True, fade_remaining := BURST_FADE_LENGTH_PKTS cfg\<rparr>"
  have first: "propagate cfg rng w p e d = (None, ?w1)"
    using clear draw by (rule propagate_ignite)
  have "in_fade ?w1" "int (length cs) < fade_remaining ?w1" using n by simp_all
  from fading_calls_partial [OF this, of cfg rng] first show ?thesis
    by (auto split: prod.splits)
qed

lemma certain_ignition:
  assumes "rng_ok rng" "BURST_FADE_START_PROB cfg = 1"
  shows "rng n < BURST_FADE_START_PROB cfg * (1 + (1 - link_quality_from_elev e 10) * 3)"
proof -
  have "rng n < 1" using assms(1) by (simp add: rng_ok_def)
  also have "1 \<le> BURST_FADE_START_PROB cfg * (1 + (1 - link_quality_from_elev e 10) * 3)"
    using fade_start_ge [of 1 e 10] assms(2) by simp
  finally show ?thesis .
qed

text \<open>
  Claim C1, amended. A call that ignites a fade returns DROPPED, and so do the
  \<open>BURST_FADE_LENGTH_PKTS\<close> calls after it, whatever their arguments: one fade accounts
  for \<open>BURST_FADE_LENGTH_PKTS + 1\<close> consecutive DROPPED outcomes, the channel is still
  fading before the last of them and Clear after it. With a start probability of 1 and a
  length of 3, from the Clear state: the first call ignites and is DROPPED, the next 3
  calls are DROPPED, the channel is Clear after the 4th call, and the 5th call is the
  first to get past the fade stage (it draws a number and ignites the next fade).
\<close>

theorem fade_drops_ignition_plus_length:
  "(\<not> in_fade w \<and> 1 \<le> BURST_FADE_LENGTH_PKTS cfg \<and>
    rng (rng_pos w) < BURST_FADE_START_PROB cfg * (1 + (1 - link_quality_from_elev e 10) * 3) \<and>
    int (length cs) = BURST_FADE_LENGTH_PKTS cfg \<longrightarrow>
      propagate_calls cfg rng w ((p, e, d) # cs) =
        (replicate (Suc (length cs)) None,
         w\<lparr>slept := slept w + real (Suc (length cs)) * PROPAGATION_DELAY_S cfg,
           rng_pos := Suc (rng_pos w), in_fade := False, fade_remaining := 0\<rparr>)) \<and>
   (\<not> in_fade w \<and>
    rng (rng_pos w) < BURST_FADE_START_PROB cfg * (1 + (1 - link_quality_from_elev e 10) * 3) \<and>
    int (length cs) < BURST_FADE_LENGTH_PKTS cfg \<longrightarrow>
      fst (propagate_calls cfg rng w ((p, e, d) # cs)) = replicate (Suc (length cs)) None \<and>
      in_fade (snd (propagate_calls cfg rng w ((p, e, d) # cs))) \<and>
      fade_remaining (snd (propagate_calls cfg rng w ((p, e, d) # cs))) =
        BURST_FADE_LENGTH_PKTS cfg - int (length cs)) \<and>
   (rng_ok rng \<and> \<not> in_fade w \<and> BURST_FADE_START_PROB cfg = 1 \<and> BURST_FADE_LENGTH_PKTS cfg = 3 \<longrightarrow>
      propagate_calls cfg rng w [(p, e, d), c2, c3, c4] =
        ([None, None, None, None],
         w\<lparr>slept := slept w + 4 * PROPAGATION_DELAY_S cfg,
           rng_pos := Suc (rng_pos w), in_fade := False, fade_remaining := 0\<rparr>) \<and>
      propagate_calls cfg rng w [(p, e, d), c2, c3, c4, (p5, e5, d5)] =
        ([None, None, None, None, None],
         w\<lparr>slept := slept w + 5 * PROPAGATION_DELAY_S cfg,
           rng_pos := Suc (Suc (rng_pos w)), in_fade := True, fade_remaining := 3\<rparr>))"
proof (intro conjI impI)
  assume "\<not> in_fade w \<and> 1 \<le> BURST_FADE_LENGTH_PKTS cfg \<and>
    rng (rng_pos w) < BURST_FADE_START_PROB cfg * (1 + (1 - link_quality_from_elev e 10) * 3) \<and>
    int (length cs) = BURST_FADE_LENGTH_PKTS cfg"
  then show "propagate_calls cfg rng w ((p, e, d) # cs) =
        (replicate (Suc (length cs)) None,
         w\<lparr>slept := slept w + real (Suc (length cs)) * PROPAGATION_DELAY_S cfg,
           rng_pos := Suc (rng_pos w), in_fade := False, fade_remaining := 0\<rparr>)"
    by (intro ignite_then_fade) simp_all
next
  assume h: "\<not> in_fade w \<and>
    rng (rng_pos w) < BURST_FADE_START_PROB cfg * (1 + (1 - link_quality_from_elev e 10) * 3) \<and>
    int (length cs) < BURST_FADE_LENGTH_PKTS cfg"
  then have *: "fst (propagate_calls cfg rng w ((p, e, d) # cs)) = replicate (Suc (length cs)) None \<and>
      in_fade (snd (propagate_calls cfg rng w ((p, e, d) # cs))) \<and>
      fade_remaining (snd (propagate_calls cfg rng w ((p, e, d) # cs))) =
        BURST_FADE_LENGTH_PKTS cfg - int (length cs)"
    by (intro ignite_then_fade_partial) simp_all
  from * show "fst (propagate_calls cfg rng w ((p, e, d) # cs)) = replicate (Suc (length cs)) None"
    by simp
  from * show "in_fade (snd (propagate_calls cfg rng w ((p, e, d) # cs)))" by simp
  from * show "fade_remaining (snd (propagate_calls cfg rng w ((p, e, d) # cs))) =
        BURST_FADE_LENGTH_PKTS cfg - int (length cs)" by simp
next
  assume h: "rng_ok rng \<and> \<not> in_fade w \<and> BURST_FADE_START_PROB cfg = 1 \<and> BURST_FADE_LENGTH_PKTS cfg = 3"
  then have draw: "rng n < BURST_FADE_START_PROB cfg * (1 + (1 - link_quality_from_elev x 10) * 3)"
    for n x
    by (intro certain_ignition) simp_all
  have four: "propagate_calls cfg rng w ((p, e, d) # [c2, c3, c4]) =
        (replicate (Suc (length [c2, c3, c4])) None,
         w\<lparr>slept := slept w + real (Suc (length [c2, c3, c4])) * PROPAGATION_DELAY_S cfg,
           rng_pos := Suc (rng_pos w), in_fade := False, fade_remaining := 0\<rparr>)"
    using h draw by (intro ignite_then_fade) simp_all
  then show four': "propagate_calls cfg rng w [(p, e, d), c2, c3, c4] =
        ([None, None, None, None],
         w\<lparr>slept := slept w + 4 * PROPAGATION_DELAY_S cfg,
           rng_pos := Suc (rng_pos w), in_fade := False, fade_remaining := 0\<rparr>)"
    by (simp add: numeral_eq_Suc)
  let ?w4 = "w\<lparr>slept := slept w + 4 * PROPAGATION_DELAY_S cfg,
           rng_pos := Suc (rng_pos w), in_fade := False, fade_remaining := 0\<rparr>"
  have fifth: "propagate cfg rng ?w4 p5 e5 d5 =
     (None, ?w4\<lparr>slept := slept ?w4 + PROPAGATION_DELAY_S cfg,
               rng_pos := Suc (rng_pos ?w4),
               in_fade := True,
               fade_remaining := BURST_FADE_LENGTH_PKTS cfg\<rparr>)"
    using draw by (intro propagate_ignite) simp_all
  have app: "propagate_calls cfg rng w (xs @ [(p5, e5, d5)]) =
      (fst (propagate_calls cfg rng w xs) @ [fst (propagate cfg rng (snd (propagate_calls cfg rng w xs)) p5 e5 d5)],
       snd (propagate cfg rng (snd (propagate_calls cfg rng w xs)) p5 e5 d5))" for xs w
    by (induction xs arbitrary: w) (auto split: prod.splits)
  show "propagate_calls cfg rng w [(p, e, d), c2, c3, c4, (p5, e5, d5)] =
        ([None, None, None, None, None],
         w\<lparr>slept := slept w + 5 * PROPAGATION_DELAY_S cfg,
           rng_pos := Suc (Suc (rng_pos w)), in_fade := True, fade_remaining := 3\<rparr>)"
    using app [of w "[(p, e, d), c2, c3, c4]"] four' fifth h by simp
qed

theorem fade_drops_ignition_plus_length_witness:
  "propagate_calls S4_ChannelConfig (draws_const (1 / 2)) initial_world
     [(Map.empty, 45, ''downlink''), (Map.empty, 45, ''downlink''),
      (Map.empty, 45, ''downlink''), (Map.empty, 45, ''downlink'')] =
     ([None, None, None, None],
      \<lparr> in_fade = False, fade_remaining = 0, rng_pos = 1, slept = 1 \<rparr>) \<and>
   propagate_calls S4_ChannelConfig (draws_const (1 / 2)) initial_world
     [(Map.empty, 45, ''downlink''), (Map.empty, 45, ''downlink''),
      (Map.empty, 45, ''downlink''), (Map.empty, 45, ''downlink''),
      (Map.empty, 45, ''downlink'')] =
     ([None, None, None, None, None],
      \<lparr> in_fade = True, fade_remaining = 3, rng_pos = 2, slept = 5 / 4 \<rparr>)"
  using fade_drops_ignition_plus_length [of initial_world S4_ChannelConfig "draws_const (1 / 2)"
      45 "[]" Map.empty "''downlink''" "(Map.empty, 45, ''downlink'')" "(Map.empty, 45, ''downlink'')"
      "(Map.empty, 45, ''downlink'')" Map.empty 45 "''downlink''"]
    rng_ok_draws_const [of "1 / 2"]
  by (simp add: S4_ChannelConfig_def default_ChannelConfig_def initial_world_def)

text \<open>
  With a start probability of 1 and a length of 3, from the Clear state: after the first
  three calls, all DROPPED, the fade is still active with one packet remaining, and the
  4th call is DROPPED by that fade without drawing a number (one number has been drawn in
  all, by the igniting call). The 4th call does not get past the fade stage.
\<close>

theorem fade_drops_counterexample:
  "propagate_calls S4_ChannelConfig (draws_const (1 / 2)) initial_world
     [(Map.empty, 45, ''downlink''), (Map.empty, 45, ''downlink''),
      (Map.empty, 45, ''downlink'')] =
     ([None, None, None],
      \<lparr> in_fade = True, fade_remaining = 1, rng_pos = 1, slept = 3 / 4 \<rparr>) \<and>
   propagate_calls S4_ChannelConfig (draws_const (1 / 2)) initial_world
     [(Map.empty, 45, ''downlink''), (Map.empty, 45, ''downlink''),
      (Map.empty, 45, ''downlink''), (Map.empty, 45, ''downlink'')] =
     ([None, None, None, None],
      \<lparr> in_fade = False, fade_remaining = 0, rng_pos = 1, slept = 1 \<rparr>)"
  by (simp add: propagate_def time_sleep_def random_random_def draws_const_def
      S4_ChannelConfig_def default_ChannelConfig_def initial_world_def
      link_quality_from_elev_def Let_def)

lemma propagate_lossless:
  assumes rng: "rng_ok rng"
    and zero: "BASE_PACKET_LOSS cfg = 0" "BASE_BIT_ERROR cfg = 0" "BASE_DUPLICATE cfg = 0"
      "BURST_FADE_START_PROB cfg = 0"
    and clear: "\<not> in_fade w"
  shows "propagate cfg rng w pkt e d =
     (Some (pkt(''corrupted'' \<mapsto> PBool (truthy (dict_get pkt ''corrupted'' (PBool False))),
                ''duplicated'' \<mapsto> PBool False)),
      w\<lparr>slept := slept w + PROPAGATION_DELAY_S cfg, rng_pos := rng_pos w + 4\<rparr>)"
proof -
  have nn: "\<not> rng n < 0" for n
    using rng by (simp add: rng_ok_def not_less)
  show ?thesis
    using zero clear
    by (simp add: propagate_def time_sleep_def random_random_def Let_def nn)
qed

lemma marked_copy_same_iff:
  "pkt(''corrupted'' \<mapsto> PBool (truthy (dict_get pkt ''corrupted'' (PBool False))),
       ''duplicated'' \<mapsto> PBool False) = pkt \<longleftrightarrow>
   (\<exists>b. pkt ''corrupted'' = Some (PBool b)) \<and> pkt ''duplicated'' = Some (PBool False)"
  (is "?out = pkt \<longleftrightarrow> ?R")
proof
  assume eq: "?out = pkt"
  have "?out ''duplicated'' = Some (PBool False)" by simp
  moreover have "?out ''corrupted'' = Some (PBool (truthy (dict_get pkt ''corrupted'' (PBool False))))"
    by simp
  ultimately have "pkt ''duplicated'' = Some (PBool False)"
    "pkt ''corrupted'' = Some (PBool (truthy (dict_get pkt ''corrupted'' (PBool False))))"
    using eq by simp_all
  then show ?R by blast
next
  assume r: ?R
  then obtain b where b: "pkt ''corrupted'' = Some (PBool b)" by blast
  then have "truthy (dict_get pkt ''corrupted'' (PBool False)) = b"
    by (simp add: dict_get_def)
  with b r show "?out = pkt"
    by (simp add: map_upd_triv)
qed

text \<open>
  Claim C2, amended. With all four base probabilities 0 and the channel Clear,
  \<open>propagate\<close> delivers, for every packet, elevation and direction, a copy of its input in
  which \<open>corrupted\<close> is the truth value of the input's flag (False when absent),
  \<open>duplicated\<close> is False and every other key is as in the input; the channel stays
  Clear and the call sleeps for the propagation delay. The result equals the input exactly
  when the input already has a Boolean \<open>corrupted\<close> and \<open>duplicated = False\<close>.
\<close>

theorem propagate_lossless_marks:
  "rng_ok rng \<and> BASE_PACKET_LOSS cfg = 0 \<and> BASE_BIT_ERROR cfg = 0 \<and> BASE_DUPLICATE cfg = 0 \<and>
   BURST_FADE_START_PROB cfg = 0 \<and> \<not> in_fade w \<longrightarrow>
     (\<exists>out w'. propagate cfg rng w pkt e d = (Some out, w') \<and>
        out = pkt(''corrupted'' \<mapsto> PBool (truthy (dict_get pkt ''corrupted'' (PBool False))),
                  ''duplicated'' \<mapsto> PBool False) \<and>
        (out = pkt \<longleftrightarrow>
           (\<exists>b. pkt ''corrupted'' = Some (PBool b)) \<and> pkt ''duplicated'' = Some (PBool False)) \<and>
        in_fade w' = in_fade w \<and> fade_remaining w' = fade_remaining w \<and>
        slept w' = slept w + PROPAGATION_DELAY_S cfg)"
proof
  assume h: "rng_ok rng \<and> BASE_PACKET_LOSS cfg = 0 \<and> BASE_BIT_ERROR cfg = 0 \<and>
    BASE_DUPLICATE cfg = 0 \<and> BURST_FADE_START_PROB cfg = 0 \<and> \<not> in_fade w"
  then have "propagate cfg rng w pkt e d =
     (Some (pkt(''corrupted'' \<mapsto> PBool (truthy (dict_get pkt ''corrupted'' (PBool False))),
                ''duplicated'' \<mapsto> PBool False)),
      w\<lparr>slept := slept w + PROPAGATION_DELAY_S cfg, rng_pos := rng_pos w + 4\<rparr>)"
    by (intro propagate_lossless) simp_all
  then show "\<exists>out w'. propagate cfg rng w pkt e d = (Some out, w') \<and>
        out = pkt(''corrupted'' \<mapsto> PBool (truthy (dict_get pkt ''corrupted'' (PBool False))),
                  ''duplicated'' \<mapsto> PBool False) \<and>
        (out = pkt \<longleftrightarrow>
           (\<exists>b. pkt ''corrupted'' = Some (PBool b)) \<and> pkt ''duplicated'' = Some (PBool False)) \<and>
        in_fade w' = in_fade w \<and> fade_remaining w' = fade_remaining w \<and>
        slept w' = slept w + PROPAGATION_DELAY_S cfg"
    using marked_copy_same_iff [of pkt] by simp
qed

theorem propagate_lossless_marks_witness:
  "\<exists>out w'. propagate lossless_ChannelConfig (draws_const (1 / 2)) initial_world
        [''seq'' \<mapsto> PInt 1, ''corrupted'' \<mapsto> PBool False, ''duplicated'' \<mapsto> PBool False]
        30 ''uplink'' = (Some out, w') \<and>
     out = [''seq'' \<mapsto> PInt 1, ''corrupted'' \<mapsto> PBool False, ''duplicated'' \<mapsto> PBool False] \<and>
     in_fade w' = False \<and> fade_remaining w' = 0 \<and> slept w' = 1 / 4"
proof -
  let ?pkt = "[''seq'' \<mapsto> PInt 1, ''corrupted'' \<mapsto> PBool False, ''duplicated'' \<mapsto> PBool False]"
  have h: "rng_ok (draws_const (1 / 2)) \<and> BASE_PACKET_LOSS lossless_ChannelConfig = 0 \<and>
      BASE_BIT_ERROR lossless_ChannelConfig = 0 \<and> BASE_DUPLICATE lossless_ChannelConfig = 0 \<and>
      BURST_FADE_START_PROB lossless_ChannelConfig = 0 \<and> \<not> in_fade initial_world"
    by (simp add: rng_ok_draws_const lossless_ChannelConfig_def initial_world_def)
  have "\<exists>b. ?pkt ''corrupted'' = Some (PBool b)"
    by (intro exI [of _ False]) simp
  then have same: "(\<exists>b. ?pkt ''corrupted'' = Some (PBool b)) \<and> ?pkt ''duplicated'' = Some (PBool False)"
    by simp
  from propagate_lossless_marks [of "draws_const (1 / 2)" lossless_ChannelConfig initial_world
      ?pkt 30 "''uplink''"] h
  obtain out w' where
    r: "propagate lossless_ChannelConfig (draws_const (1 / 2)) initial_world ?pkt 30 ''uplink''
          = (Some out, w')"
    and eq: "out = ?pkt \<longleftrightarrow>
          (\<exists>b. ?pkt ''corrupted'' = Some (PBool b)) \<and> ?pkt ''duplicated'' = Some (PBool False)"
    and w: "in_fade w' = in_fade initial_world" "fade_remaining w' = fade_remaining initial_world"
      "slept w' = slept initial_world + PROPAGATION_DELAY_S lossless_ChannelConfig"
    by blast
  from eq same have "out = ?pkt" by blast
  with r w show ?thesis
    by (simp add: initial_world_def lossless_ChannelConfig_def default_ChannelConfig_def)
qed

text \<open>
  The packet of the module's own self-test, \<^verbatim>\<open>{"seq": 1, "corrupted": False}\<close>, has no
  key \<open>duplicated\<close>; the packet delivered by the lossless channel has it.
\<close>

theorem propagate_identity_counterexample:
  "fst (propagate lossless_ChannelConfig (draws_const (1 / 2)) initial_world
         [''seq'' \<mapsto> PInt 1, ''corrupted'' \<mapsto> PBool False] 30 ''downlink'') =
     Some [''seq'' \<mapsto> PInt 1, ''corrupted'' \<mapsto> PBool False, ''duplicated'' \<mapsto> PBool False] \<and>
   [''seq'' \<mapsto> PInt 1, ''corrupted'' \<mapsto> PBool False, ''duplicated'' \<mapsto> PBool False] ''duplicated''
     = Some (PBool False) \<and>
   [''seq'' \<mapsto> PInt 1, ''corrupted'' \<mapsto> PBool False] ''duplicated'' = None \<and>
   fst (propagate lossless_ChannelConfig (draws_const (1 / 2)) initial_world
         [''seq'' \<mapsto> PInt 1, ''corrupted'' \<mapsto> PBool False] 30 ''downlink'') \<noteq>
     Some [''seq'' \<mapsto> PInt 1, ''corrupted'' \<mapsto> PBool False]"
proof -
  let ?pkt = "[''seq'' \<mapsto> PInt 1, ''corrupted'' \<mapsto> PBool False]"
  let ?out = "[''seq'' \<mapsto> PInt 1, ''corrupted'' \<mapsto> PBool False, ''duplicated'' \<mapsto> PBool False]"
  have r: "fst (propagate lossless_ChannelConfig (draws_const (1 / 2)) initial_world ?pkt 30 ''downlink'')
      = Some ?out"
    by (simp add: propagate_def time_sleep_def random_random_def draws_const_def
        lossless_ChannelConfig_def default_ChannelConfig_def initial_world_def
        link_quality_from_elev_def Let_def dict_get_def lower_def lower_char_def)
  have a: "?out ''duplicated'' = Some (PBool False)" by simp
  have b: "?pkt ''duplicated'' = None" by simp
  have "?out \<noteq> ?pkt"
  proof
    assume "?out = ?pkt"
    then have "?out ''duplicated'' = ?pkt ''duplicated''" by (rule arg_cong)
    then show False by simp
  qed
  with r show ?thesis by simp
qed

subsection \<open>The caller's packet object\<close>

lemma setitem_new: "setitem (h @ [x]) (length h) k v = h @ [x(k \<mapsto> v)]"
  by (simp add: setitem_def)

text \<open>
  The store version computes what the value version computes: a dropped packet leaves
  the store as it was, a delivered one is a new object appended to it.
\<close>

lemma propagate_store_refines:
  "propagate_store cfg rng (w, h) a e d =
     (case propagate cfg rng w (h ! a) e d of
        (None, w') \<Rightarrow> (None, w', h)
      | (Some out, w') \<Rightarrow> (Some (length h), w', h @ [out]))"
  by (simp add: propagate_store_def propagate_def Let_def split_def dict_copy_def setitem_new)

text \<open>
  Claim C9. \<open>propagate\<close> never changes the packet object passed to it, nor any other
  object that existed before the call. When the packet is dropped the store is unchanged;
  when it is delivered the result is a new object, different from the caller's, and
  \<open>corrupted\<close>, \<open>rf_note\<close> and \<open>duplicated\<close> are set on that object only.
\<close>

theorem propagate_leaves_packet:
  "a < length h \<and> propagate_store cfg rng (w, h) a e d = (r, w', h') \<longrightarrow>
     h' ! a = h ! a \<and> take (length h) h' = h \<and>
     (r = None \<longrightarrow> h' = h) \<and>
     (\<forall>out. r = Some out \<longrightarrow>
        out = length h \<and> out \<noteq> a \<and> length h' = Suc (length h) \<and>
        propagate cfg rng w (h ! a) e d = (Some (h' ! out), w'))"
proof
  assume h: "a < length h \<and> propagate_store cfg rng (w, h) a e d = (r, w', h')"
  obtain r0 w0 where p: "propagate cfg rng w (h ! a) e d = (r0, w0)"
    by (cases "propagate cfg rng w (h ! a) e d")
  show "h' ! a = h ! a \<and> take (length h) h' = h \<and>
     (r = None \<longrightarrow> h' = h) \<and>
     (\<forall>out. r = Some out \<longrightarrow>
        out = length h \<and> out \<noteq> a \<and> length h' = Suc (length h) \<and>
        propagate cfg rng w (h ! a) e d = (Some (h' ! out), w'))"
  proof (cases r0)
    case None
    with h p show ?thesis by (simp add: propagate_store_refines)
  next
    case (Some out)
    with h p have "r = Some (length h)" "w' = w0" "h' = h @ [out]"
      by (simp_all add: propagate_store_refines)
    with h p Some show ?thesis by (auto simp: nth_append)
  qed
qed

theorem propagate_leaves_packet_witness:
  "propagate_store default_ChannelConfig (draws_const (1 / 2)) (initial_world, [[''seq'' \<mapsto> PInt 1]])
       0 90 ''downlink'' =
     (Some 1, initial_world\<lparr>slept := 1 / 4, rng_pos := 4\<rparr>,
      [[''seq'' \<mapsto> PInt 1],
       [''seq'' \<mapsto> PInt 1, ''corrupted'' \<mapsto> PBool False, ''duplicated'' \<mapsto> PBool False]]) \<and>
   [[''seq'' \<mapsto> PInt 1],
    [''seq'' \<mapsto> PInt 1, ''corrupted'' \<mapsto> PBool False, ''duplicated'' \<mapsto> PBool False]] ! 0 =
     [[''seq'' \<mapsto> PInt 1]] ! 0"
proof -
  let ?h = "[[''seq'' \<mapsto> PInt 1]] :: store"
  let ?h' = "[[''seq'' \<mapsto> PInt 1],
       [''seq'' \<mapsto> PInt 1, ''corrupted'' \<mapsto> PBool False, ''duplicated'' \<mapsto> PBool False]]"
  have run: "propagate_store default_ChannelConfig (draws_const (1 / 2)) (initial_world, ?h)
       0 90 ''downlink'' = (Some 1, initial_world\<lparr>slept := 1 / 4, rng_pos := 4\<rparr>, ?h')"
    by (simp add: propagate_store_def time_sleep_def random_random_def draws_const_def
        default_ChannelConfig_def initial_world_def link_quality_from_elev_def Let_def
        dict_get_def dict_copy_def setitem_def lower_def lower_char_def)
  have "0 < length ?h \<and> propagate_store default_ChannelConfig (draws_const (1 / 2))
       (initial_world, ?h) 0 90 ''downlink'' = (Some 1, initial_world\<lparr>slept := 1 / 4, rng_pos := 4\<rparr>, ?h')"
    using run by simp
  with propagate_leaves_packet [of 0 ?h default_ChannelConfig "draws_const (1 / 2)" initial_world
      90 "''downlink''" "Some 1" "initial_world\<lparr>slept := 1 / 4, rng_pos := 4\<rparr>" ?h']
  have "?h' ! 0 = ?h ! 0" by blast
  with run show ?thesis by blast
qed


section \<open>Properties of the telecommand uplink\<close>

lemma tc_sender_dropped:
  assumes "telecommand_queue s = tc # rest" "visible st"
    and "propagate cfg rng w
           [''type'' \<mapsto> PStr ''TC'', ''cmd'' \<mapsto> PStr tc, ''ts'' \<mapsto> PFloat now,
            ''corrupted'' \<mapsto> PBool False] (elev_deg st) ''uplink'' = (None, w1)"
  shows "tc_sender cfg rng st now (s, w) =
     (s\<lparr>telecommand_queue := rest, bbu_printed := bbu_printed s @ [TC_DROP_RF tc]\<rparr>, w1)"
  using assms by (simp add: tc_sender_def)

lemma tc_sender_delivered:
  assumes "telecommand_queue s = tc # rest" "visible st"
    and "propagate cfg rng w
           [''type'' \<mapsto> PStr ''TC'', ''cmd'' \<mapsto> PStr tc, ''ts'' \<mapsto> PFloat now,
            ''corrupted'' \<mapsto> PBool False] (elev_deg st) ''uplink'' = (Some p, w1)"
  shows "tc_sender cfg rng st now (s, w) =
     (s\<lparr>telecommand_queue := rest, udp_to_sat := udp_to_sat s @ [tc],
        bbu_printed := bbu_printed s @
          (if truthy (dict_get p ''corrupted'' PNone) then [TC_CORRUPTED_still_sent tc] else []) @
          [TC_SENT_to_satellite tc]\<rparr>,
      time_sleep 0.2 w1)"
  using assms by (simp add: tc_sender_def Let_def)

lemma telecommand_executor_step:
  assumes "tc_queue s = cmd # rest" "visible st"
    and "propagate cfg rng w
           [''type'' \<mapsto> PStr ''TC'', ''cmd'' \<mapsto> PStr cmd, ''ts'' \<mapsto> PFloat now,
            ''corrupted'' \<mapsto> PBool False] (elev_deg st) ''uplink'' = (r, w1)"
  shows "telecommand_executor cfg rng st now (s, w) =
     (s\<lparr>tc_queue := rest,
        sat_printed := sat_printed s @
          [case r of
             None \<Rightarrow> TC_LOST_RF cmd
           | Some p \<Rightarrow> if truthy (dict_get p ''corrupted'' PNone) then TC_CORRUPTED_ignored cmd
                       else TC_EXECUTED cmd]\<rparr>,
      w1)"
  using assms by (simp add: telecommand_executor_def Let_def split: option.splits)

text \<open>What one pass of the sender does to the queue and to the datagrams sent.\<close>

lemma tc_sender_effect:
  "(telecommand_queue (fst (tc_sender cfg rng st now sw)) = telecommand_queue (fst sw) \<and>
    udp_to_sat (fst (tc_sender cfg rng st now sw)) = udp_to_sat (fst sw)) \<or>
   (\<exists>tc. telecommand_queue (fst sw) = tc # telecommand_queue (fst (tc_sender cfg rng st now sw)) \<and>
      (udp_to_sat (fst (tc_sender cfg rng st now sw)) = udp_to_sat (fst sw) \<or>
       udp_to_sat (fst (tc_sender cfg rng st now sw)) = udp_to_sat (fst sw) @ [tc]))"
  by (cases sw) (auto simp: tc_sender_def Let_def split: list.splits prod.splits option.splits)

lemma tc_receiver_from_web_effect:
  "telecommand_queue (tc_receiver_from_web s data) =
     telecommand_queue s @ (if strip data \<noteq> [] then [strip data] else []) \<and>
   udp_to_sat (tc_receiver_from_web s data) = udp_to_sat s"
  by (simp add: tc_receiver_from_web_def Let_def)

text \<open>
  Whatever happens later, the datagrams sent are commands taken from the queue or
  enqueued since, in their order.
\<close>

lemma bbu_uplink_run_sent:
  "\<exists>sent. udp_to_sat (fst (bbu_uplink_run cfg rng sw evs)) = udp_to_sat (fst sw) @ sent \<and>
     subseq sent (telecommand_queue (fst sw) @ enqueued evs)"
proof (induction evs arbitrary: sw)
  case Nil
  then show ?case by simp
next
  case (Cons ev evs)
  show ?case
  proof (cases ev)
    case (WebTC data)
    let ?sw1 = "(tc_receiver_from_web (fst sw) data, snd sw)"
    from Cons.IH [of ?sw1] obtain sent where
      "udp_to_sat (fst (bbu_uplink_run cfg rng ?sw1 evs)) = udp_to_sat (fst ?sw1) @ sent"
      "subseq sent (telecommand_queue (fst ?sw1) @ enqueued evs)" by blast
    with WebTC show ?thesis
      by (auto simp: tc_receiver_from_web_effect)
  next
    case (SenderPass st now)
    let ?sw1 = "tc_sender cfg rng st now sw"
    from Cons.IH [of ?sw1] obtain sent where
      s: "udp_to_sat (fst (bbu_uplink_run cfg rng ?sw1 evs)) = udp_to_sat (fst ?sw1) @ sent"
      "subseq sent (telecommand_queue (fst ?sw1) @ enqueued evs)" by blast
    from tc_sender_effect [of cfg rng st now sw] show ?thesis
    proof (elim disjE exE conjE)
      assume "telecommand_queue (fst ?sw1) = telecommand_queue (fst sw)"
        "udp_to_sat (fst ?sw1) = udp_to_sat (fst sw)"
      with s SenderPass show ?thesis by auto
    next
      fix tc
      assume "telecommand_queue (fst sw) = tc # telecommand_queue (fst ?sw1)"
        "udp_to_sat (fst ?sw1) = udp_to_sat (fst sw)"
      with s SenderPass show ?thesis by (auto intro: subseq_Cons')
    next
      fix tc
      assume "telecommand_queue (fst sw) = tc # telecommand_queue (fst ?sw1)"
        "udp_to_sat (fst ?sw1) = udp_to_sat (fst sw) @ [tc]"
      with s SenderPass have
        "udp_to_sat (fst (bbu_uplink_run cfg rng sw (ev # evs))) = udp_to_sat (fst sw) @ (tc # sent)"
        "subseq (tc # sent) (telecommand_queue (fst sw) @ enqueued (ev # evs))"
        by simp_all
      then show ?thesis by blast
    qed
  qed
qed


text \<open>
  Claim C3, amended. On the BBU uplink, for a dequeued command: a DROPPED verdict is
  logged and the datagram is not sent; a delivered verdict sends the command to the
  spacecraft, and when it is marked corrupted this is logged first and the datagram is
  still sent. On the spacecraft the verdict of its own application of the channel decides:
  the command is executed only when it is delivered and not corrupted, and is otherwise
  logged as lost or ignored.
\<close>

theorem uplink_verdicts:
  "(telecommand_queue s = tc # rest \<and> visible st \<and>
    propagate cfg rng w
      [''type'' \<mapsto> PStr ''TC'', ''cmd'' \<mapsto> PStr tc, ''ts'' \<mapsto> PFloat now,
       ''corrupted'' \<mapsto> PBool False] (elev_deg st) ''uplink'' = (r, w1) \<longrightarrow>
      tc_sender cfg rng st now (s, w) =
        (case r of
           None \<Rightarrow>
             (s\<lparr>telecommand_queue := rest, bbu_printed := bbu_printed s @ [TC_DROP_RF tc]\<rparr>, w1)
         | Some p \<Rightarrow>
             (s\<lparr>telecommand_queue := rest, udp_to_sat := udp_to_sat s @ [tc],
                bbu_printed := bbu_printed s @
                  (if truthy (dict_get p ''corrupted'' PNone) then [TC_CORRUPTED_still_sent tc]
                   else []) @ [TC_SENT_to_satellite tc]\<rparr>,
              time_sleep 0.2 w1))) \<and>
   (tc_queue ss = cmd # rest' \<and> visible st' \<and>
    propagate cfg' rng' w'
      [''type'' \<mapsto> PStr ''TC'', ''cmd'' \<mapsto> PStr cmd, ''ts'' \<mapsto> PFloat now',
       ''corrupted'' \<mapsto> PBool False] (elev_deg st') ''uplink'' = (r', w1') \<longrightarrow>
      telecommand_executor cfg' rng' st' now' (ss, w') =
        (ss\<lparr>tc_queue := rest',
           sat_printed := sat_printed ss @
             [case r' of
                None \<Rightarrow> TC_LOST_RF cmd
              | Some p \<Rightarrow> if truthy (dict_get p ''corrupted'' PNone) then TC_CORRUPTED_ignored cmd
                          else TC_EXECUTED cmd]\<rparr>,
         w1'))"
proof (intro conjI impI)
  assume h: "telecommand_queue s = tc # rest \<and> visible st \<and>
    propagate cfg rng w
      [''type'' \<mapsto> PStr ''TC'', ''cmd'' \<mapsto> PStr tc, ''ts'' \<mapsto> PFloat now,
       ''corrupted'' \<mapsto> PBool False] (elev_deg st) ''uplink'' = (r, w1)"
  show "tc_sender cfg rng st now (s, w) =
        (case r of
           None \<Rightarrow>
             (s\<lparr>telecommand_queue := rest, bbu_printed := bbu_printed s @ [TC_DROP_RF tc]\<rparr>, w1)
         | Some p \<Rightarrow>
             (s\<lparr>telecommand_queue := rest, udp_to_sat := udp_to_sat s @ [tc],
                bbu_printed := bbu_printed s @
                  (if truthy (dict_get p ''corrupted'' PNone) then [TC_CORRUPTED_still_sent tc]
                   else []) @ [TC_SENT_to_satellite tc]\<rparr>,
              time_sleep 0.2 w1))"
  proof (cases r)
    case None
    with h show ?thesis by (simp add: tc_sender_dropped)
  next
    case (Some p)
    with h show ?thesis by (simp add: tc_sender_delivered)
  qed
next
  assume "tc_queue ss = cmd # rest' \<and> visible st' \<and>
    propagate cfg' rng' w'
      [''type'' \<mapsto> PStr ''TC'', ''cmd'' \<mapsto> PStr cmd, ''ts'' \<mapsto> PFloat now',
       ''corrupted'' \<mapsto> PBool False] (elev_deg st') ''uplink'' = (r', w1')"
  then show "telecommand_executor cfg' rng' st' now' (ss, w') =
        (ss\<lparr>tc_queue := rest',
           sat_printed := sat_printed ss @
             [case r' of
                None \<Rightarrow> TC_LOST_RF cmd
              | Some p \<Rightarrow> if truthy (dict_get p ''corrupted'' PNone) then TC_CORRUPTED_ignored cmd
                          else TC_EXECUTED cmd]\<rparr>,
         w1')"
    by (intro telecommand_executor_step) simp_all
qed

lemma pass45_ignite:
  "propagate default_ChannelConfig (draws_const 0) initial_world pkt 45 d =
     (None, \<lparr> in_fade = True, fade_remaining = 25, rng_pos = 1, slept = 1 / 4 \<rparr>)"
  by (simp add: propagate_def time_sleep_def random_random_def draws_const_def
      default_ChannelConfig_def initial_world_def link_quality_from_elev_def Let_def)

lemma pass90_deliver:
  "propagate default_ChannelConfig (draws_const (1 / 2)) initial_world
     [''type'' \<mapsto> PStr ''TC'', ''cmd'' \<mapsto> PStr c, ''ts'' \<mapsto> PFloat t,
      ''corrupted'' \<mapsto> PBool False] 90 ''uplink'' =
     (Some [''type'' \<mapsto> PStr ''TC'', ''cmd'' \<mapsto> PStr c, ''ts'' \<mapsto> PFloat t,
            ''corrupted'' \<mapsto> PBool False, ''duplicated'' \<mapsto> PBool False],
      \<lparr> in_fade = False, fade_remaining = 0, rng_pos = 4, slept = 1 / 4 \<rparr>)"
  by (simp add: propagate_def time_sleep_def random_random_def draws_const_def
      default_ChannelConfig_def initial_world_def link_quality_from_elev_def Let_def
      dict_get_def lower_def lower_char_def)

theorem uplink_verdicts_witness:
  "tc_sender default_ChannelConfig (draws_const (1 / 2))
     \<lparr> ts = 0, elev_deg = 90, doppler_hz = 0, visible = True,
        rate_dl_mbps = 258 / 1000, rate_ul_mbps = 50 / 1000 \<rparr> 7
     (bbu_initial\<lparr>telecommand_queue := [''PING'']\<rparr>, initial_world) =
     (bbu_initial\<lparr>telecommand_queue := [], udp_to_sat := [''PING''],
        bbu_printed := [TC_SENT_to_satellite ''PING'']\<rparr>,
      \<lparr> in_fade = False, fade_remaining = 0, rng_pos = 4, slept = 9 / 20 \<rparr>) \<and>
   telecommand_executor default_ChannelConfig (draws_const 0)
     \<lparr> ts = 0, elev_deg = 45, doppler_hz = 0, visible = True,
        rate_dl_mbps = 1 / 10, rate_ul_mbps = 1 / 50 \<rparr> 8
     (sat_initial\<lparr>tc_queue := [''PING'']\<rparr>, initial_world) =
     (sat_initial\<lparr>tc_queue := [], sat_printed := [TC_LOST_RF ''PING'']\<rparr>,
      \<lparr> in_fade = True, fade_remaining = 25, rng_pos = 1, slept = 1 / 4 \<rparr>)"
  using uplink_verdicts [of "bbu_initial\<lparr>telecommand_queue := [''PING'']\<rparr>" "''PING''" "[]"
      "\<lparr> ts = 0, elev_deg = 90, doppler_hz = 0, visible = True,
         rate_dl_mbps = 258 / 1000, rate_ul_mbps = 50 / 1000 \<rparr>"
      default_ChannelConfig "draws_const (1 / 2)" initial_world 7
      "Some [''type'' \<mapsto> PStr ''TC'', ''cmd'' \<mapsto> PStr ''PING'', ''ts'' \<mapsto> PFloat 7,
            ''corrupted'' \<mapsto> PBool False, ''duplicated'' \<mapsto> PBool False]"
      "\<lparr> in_fade = False, fade_remaining = 0, rng_pos = 4, slept = 1 / 4 \<rparr>"
      "sat_initial\<lparr>tc_queue := [''PING'']\<rparr>" "''PING''" "[]"
      "\<lparr> ts = 0, elev_deg = 45, doppler_hz = 0, visible = True,
         rate_dl_mbps = 1 / 10, rate_ul_mbps = 1 / 50 \<rparr>"
      default_ChannelConfig "draws_const 0" initial_world 8 None
      "\<lparr> in_fade = True, fade_remaining = 25, rng_pos = 1, slept = 1 / 4 \<rparr>"]
    pass90_deliver [of "''PING''" 7] pass45_ignite
  by (simp add: bbu_initial_def sat_initial_def time_sleep_def dict_get_def)

text \<open>
  A DROPPED verdict on the BBU does suppress the send: the command leaves the queue, the
  drop is logged and no datagram goes to the spacecraft.
\<close>

theorem uplink_send_suppressed_counterexample:
  "tc_sender default_ChannelConfig (draws_const 0)
     \<lparr> ts = 0, elev_deg = 45, doppler_hz = 0, visible = True,
        rate_dl_mbps = 1 / 10, rate_ul_mbps = 1 / 50 \<rparr> 7
     (bbu_initial\<lparr>telecommand_queue := [''PING'']\<rparr>, initial_world) =
     (\<lparr> telemetry_live = [], telemetry_history = [], telecommand_queue = [],
         udp_to_sat = [], bbu_printed = [TC_DROP_RF ''PING''] \<rparr>,
      \<lparr> in_fade = True, fade_remaining = 25, rng_pos = 1, slept = 1 / 4 \<rparr>)"
  by (simp add: tc_sender_def pass45_ignite bbu_initial_def)

text \<open>
  Claim C10. When the sender has dequeued a command and the channel's verdict is DROPPED,
  the pass ends with the command removed from the queue, nothing re-enqueued and nothing
  sent; and in every continuation (commands arriving from the web client, further passes
  of the sender) the datagrams sent are commands that were behind it in the queue or
  were enqueued later, in their order.
\<close>

theorem dropped_command_is_lost:
  "telecommand_queue s = tc # rest \<and> visible st \<and>
   propagate cfg rng w
     [''type'' \<mapsto> PStr ''TC'', ''cmd'' \<mapsto> PStr tc, ''ts'' \<mapsto> PFloat now,
      ''corrupted'' \<mapsto> PBool False] (elev_deg st) ''uplink'' = (None, w1) \<longrightarrow>
     telecommand_queue (fst (tc_sender cfg rng st now (s, w))) = rest \<and>
     udp_to_sat (fst (tc_sender cfg rng st now (s, w))) = udp_to_sat s \<and>
     bbu_printed (fst (tc_sender cfg rng st now (s, w))) = bbu_printed s @ [TC_DROP_RF tc] \<and>
     (\<exists>sent. udp_to_sat (fst (bbu_uplink_run cfg rng (tc_sender cfg rng st now (s, w)) evs)) =
               udp_to_sat s @ sent \<and>
             subseq sent (rest @ enqueued evs))"
proof
  assume h: "telecommand_queue s = tc # rest \<and> visible st \<and>
   propagate cfg rng w
     [''type'' \<mapsto> PStr ''TC'', ''cmd'' \<mapsto> PStr tc, ''ts'' \<mapsto> PFloat now,
      ''corrupted'' \<mapsto> PBool False] (elev_deg st) ''uplink'' = (None, w1)"
  then have step: "tc_sender cfg rng st now (s, w) =
     (s\<lparr>telecommand_queue := rest, bbu_printed := bbu_printed s @ [TC_DROP_RF tc]\<rparr>, w1)"
    by (intro tc_sender_dropped) simp_all
  from bbu_uplink_run_sent [of cfg rng "tc_sender cfg rng st now (s, w)" evs] step
  show "telecommand_queue (fst (tc_sender cfg rng st now (s, w))) = rest \<and>
     udp_to_sat (fst (tc_sender cfg rng st now (s, w))) = udp_to_sat s \<and>
     bbu_printed (fst (tc_sender cfg rng st now (s, w))) = bbu_printed s @ [TC_DROP_RF tc] \<and>
     (\<exists>sent. udp_to_sat (fst (bbu_uplink_run cfg rng (tc_sender cfg rng st now (s, w)) evs)) =
               udp_to_sat s @ sent \<and>
             subseq sent (rest @ enqueued evs))"
    by simp
qed

theorem dropped_command_is_lost_witness:
  "telecommand_queue (fst (tc_sender default_ChannelConfig (draws_const 0)
     \<lparr> ts = 0, elev_deg = 45, doppler_hz = 0, visible = True,
        rate_dl_mbps = 1 / 10, rate_ul_mbps = 1 / 50 \<rparr> 3
     (bbu_initial\<lparr>telecommand_queue := [''RESET'', ''NEXT'']\<rparr>, initial_world))) = [''NEXT''] \<and>
   udp_to_sat (fst (tc_sender default_ChannelConfig (draws_const 0)
     \<lparr> ts = 0, elev_deg = 45, doppler_hz = 0, visible = True,
        rate_dl_mbps = 1 / 10, rate_ul_mbps = 1 / 50 \<rparr> 3
     (bbu_initial\<lparr>telecommand_queue := [''RESET'', ''NEXT'']\<rparr>, initial_world))) = [] \<and>
   (\<exists>sent. udp_to_sat (fst (bbu_uplink_run default_ChannelConfig (draws_const 0)
       (tc_sender default_ChannelConfig (draws_const 0)
          \<lparr> ts = 0, elev_deg = 45, doppler_hz = 0, visible = True,
             rate_dl_mbps = 1 / 10, rate_ul_mbps = 1 / 50 \<rparr> 3
          (bbu_initial\<lparr>telecommand_queue := [''RESET'', ''NEXT'']\<rparr>, initial_world))
       [WebTC '' STATUS '']))
       = sent \<and> subseq sent [''NEXT'', ''STATUS''])"
  using dropped_command_is_lost [of "bbu_initial\<lparr>telecommand_queue := [''RESET'', ''NEXT'']\<rparr>"
      "''RESET''" "[''NEXT'']"
      "\<lparr> ts = 0, elev_deg = 45, doppler_hz = 0, visible = True,
         rate_dl_mbps = 1 / 10, rate_ul_mbps = 1 / 50 \<rparr>"
      default_ChannelConfig "draws_const 0" initial_world 3
      "\<lparr> in_fade = True, fade_remaining = 25, rng_pos = 1, slept = 1 / 4 \<rparr>"
      "[WebTC '' STATUS '']"]
    pass45_ignite
  by (simp add: bbu_initial_def strip_def is_space_def)

section \<open>Properties of the geometry state\<close>















section \<open>Properties of the telemetry buffers\<close>

lemma length_slice_last: "length (slice_last n xs) = min n (length xs)"
  by (simp add: slice_last_def)

lemma slice_last_short: "length xs \<le> n \<Longrightarrow> slice_last n xs = xs"
  by (simp add: slice_last_def)

lemma slice_last_snoc: "0 < n \<Longrightarrow> last (slice_last n (xs @ [x])) = x"
  by (simp add: slice_last_def)

lemma slice_last_append: "slice_last n (slice_last n xs @ ys) = slice_last n (xs @ ys)"
proof (cases "length xs \<le> n")
  case True
  then show ?thesis by (simp add: slice_last_short)
next
  case False
  then show ?thesis by (simp add: slice_last_def add.commute)
qed

lemma tm_receiver_buffers:
  "telemetry_history (tm_receiver s raw vis) = slice_last 5000 (telemetry_history s @ [raw])"
  "telemetry_live (tm_receiver s raw vis) =
     (if vis then slice_last 2000 (telemetry_live s @ [raw]) else telemetry_live s)"
  by (simp_all add: tm_receiver_def tm_append_history_def tm_trim_history_def tm_append_live_def
      tm_trim_live_def Let_def slice_last_short)

lemma tm_receiver_states_last: "last (tm_receiver_states s raw vis) = tm_receiver s raw vis"
  by (simp add: tm_receiver_states_def tm_receiver_def Let_def)

text \<open>Inside a pass a buffer holds at most one frame more than its cap.\<close>

lemma tm_receiver_states_bound:
  assumes "length (telemetry_live s) \<le> 2000" "length (telemetry_history s) \<le> 5000"
    and "x \<in> set (tm_receiver_states s raw vis)"
  shows "length (telemetry_live x) \<le> 2001 \<and> length (telemetry_history x) \<le> 5001"
  using assms
  by (auto simp: tm_receiver_states_def tm_append_history_def tm_trim_history_def
      tm_append_live_def tm_trim_live_def Let_def length_slice_last split: if_splits)

lemma tm_receiver_run_buffers:
  "telemetry_history (tm_receiver_run s ds) =
     (if ds = [] then telemetry_history s
      else slice_last 5000 (telemetry_history s @ map fst ds)) \<and>
   telemetry_live (tm_receiver_run s ds) =
     (if filter snd ds = [] then telemetry_live s
      else slice_last 2000 (telemetry_live s @ map fst (filter snd ds)))"
proof (induction ds arbitrary: s)
  case Nil
  then show ?case by simp
next
  case (Cons d ds)
  obtain raw vis where d: "d = (raw, vis)" by (cases d)
  have h: "slice_last 5000 (slice_last 5000 (telemetry_history s @ [raw]) @ ys)
      = slice_last 5000 (telemetry_history s @ raw # ys)" for ys
    using slice_last_append [of 5000 "telemetry_history s @ [raw]" ys] by simp
  have l: "slice_last 2000 (slice_last 2000 (telemetry_live s @ [raw]) @ ys)
      = slice_last 2000 (telemetry_live s @ raw # ys)" for ys
    using slice_last_append [of 2000 "telemetry_live s @ [raw]" ys] by simp
  show ?case
    using Cons.IH [of "tm_receiver s raw vis"] d h l
    by (simp add: tm_receiver_buffers)
qed

text \<open>
  Claim C8, amended. After \<open>tm_receiver\<close> has handled a datagram, the history holds at
  most 5000 frames and ends with the new frame; when the spacecraft is visible the frame
  is also the last of the live buffer, which then holds at most 2000 frames, and otherwise
  the live buffer is as before. Hence both caps hold after every datagram of a run that
  starts within them, and from the empty buffers the history is the last 5000 of all
  frames received and the live buffer the last 2000 of those received while visible.
  Inside a pass, between an append and the truncation that follows it, a buffer holds at
  most one frame more than its cap.
\<close>

theorem tm_receiver_caps:
  "length (telemetry_history (tm_receiver s raw vis)) \<le> 5000 \<and>
   last (telemetry_history (tm_receiver s raw vis)) = raw \<and>
   (vis \<longrightarrow> length (telemetry_live (tm_receiver s raw vis)) \<le> 2000 \<and>
            last (telemetry_live (tm_receiver s raw vis)) = raw) \<and>
   (\<not> vis \<longrightarrow> telemetry_live (tm_receiver s raw vis) = telemetry_live s) \<and>
   (length (telemetry_live s) \<le> 2000 \<and> length (telemetry_history s) \<le> 5000 \<longrightarrow>
      length (telemetry_live (tm_receiver_run s ds)) \<le> 2000 \<and>
      length (telemetry_history (tm_receiver_run s ds)) \<le> 5000) \<and>
   telemetry_history (tm_receiver_run bbu_initial ds) = slice_last 5000 (map fst ds) \<and>
   telemetry_live (tm_receiver_run bbu_initial ds) = slice_last 2000 (map fst (filter snd ds)) \<and>
   last (tm_receiver_states s raw vis) = tm_receiver s raw vis \<and>
   (length (telemetry_live s) \<le> 2000 \<and> length (telemetry_history s) \<le> 5000 \<longrightarrow>
      (\<forall>x \<in> set (tm_receiver_states s raw vis).
         length (telemetry_live x) \<le> 2001 \<and> length (telemetry_history x) \<le> 5001))"
proof (intro conjI impI ballI)
  show "length (telemetry_history (tm_receiver s raw vis)) \<le> 5000"
    by (simp add: tm_receiver_buffers length_slice_last)
  show "last (telemetry_history (tm_receiver s raw vis)) = raw"
    by (simp add: tm_receiver_buffers slice_last_snoc)
  show "telemetry_live (tm_receiver s raw vis) = telemetry_live s" if "\<not> vis"
    using that by (simp add: tm_receiver_buffers)
  show "length (telemetry_live (tm_receiver s raw vis)) \<le> 2000" if vis
    using that by (simp add: tm_receiver_buffers length_slice_last)
  show "last (telemetry_live (tm_receiver s raw vis)) = raw" if vis
    using that by (simp add: tm_receiver_buffers slice_last_snoc)
  show "length (telemetry_live (tm_receiver_run s ds)) \<le> 2000"
    if "length (telemetry_live s) \<le> 2000 \<and> length (telemetry_history s) \<le> 5000"
    using that tm_receiver_run_buffers [of s ds] by (simp add: length_slice_last)
  show "length (telemetry_history (tm_receiver_run s ds)) \<le> 5000"
    if "length (telemetry_live s) \<le> 2000 \<and> length (telemetry_history s) \<le> 5000"
    using that tm_receiver_run_buffers [of s ds] by (simp add: length_slice_last)
  show "telemetry_history (tm_receiver_run bbu_initial ds) = slice_last 5000 (map fst ds)"
    using tm_receiver_run_buffers [of bbu_initial ds]
    by (simp add: bbu_initial_def slice_last_def)
  show "telemetry_live (tm_receiver_run bbu_initial ds) = slice_last 2000 (map fst (filter snd ds))"
    using tm_receiver_run_buffers [of bbu_initial ds]
    by (simp add: bbu_initial_def slice_last_def)
  show "last (tm_receiver_states s raw vis) = tm_receiver s raw vis"
    by (rule tm_receiver_states_last)
  show "length (telemetry_live x) \<le> 2001"
    if "length (telemetry_live s) \<le> 2000 \<and> length (telemetry_history s) \<le> 5000"
      "x \<in> set (tm_receiver_states s raw vis)" for x
    using that tm_receiver_states_bound [of s x raw vis] by simp
  show "length (telemetry_history x) \<le> 5001"
    if "length (telemetry_live s) \<le> 2000 \<and> length (telemetry_history s) \<le> 5000"
      "x \<in> set (tm_receiver_states s raw vis)" for x
    using that tm_receiver_states_bound [of s x raw vis] by simp
qed

theorem tm_receiver_caps_witness:
  "telemetry_history
     (tm_receiver (bbu_initial\<lparr>telemetry_history := replicate 5000 ''old''\<rparr>) ''new'' True) =
     replicate 4999 ''old'' @ [''new''] \<and>
   telemetry_live
     (tm_receiver (bbu_initial\<lparr>telemetry_history := replicate 5000 ''old''\<rparr>) ''new'' True) =
     [''new''] \<and>
   length (telemetry_history
     (tm_receiver (bbu_initial\<lparr>telemetry_history := replicate 5000 ''old''\<rparr>) ''new'' True)) \<le> 5000 \<and>
   length (telemetry_live (tm_receiver_run bbu_initial [(''a'', True), (''b'', False)])) \<le> 2000 \<and>
   length (telemetry_history (tm_receiver_run bbu_initial [(''a'', True), (''b'', False)])) \<le> 5000 \<and>
   telemetry_history (tm_receiver_run bbu_initial [(''a'', True), (''b'', False)]) = [''a'', ''b''] \<and>
   telemetry_live (tm_receiver_run bbu_initial [(''a'', True), (''b'', False)]) = [''a''] \<and>
   length (telemetry_history
     (hd (tm_receiver_states (bbu_initial\<lparr>telemetry_history := replicate 5000 ''old''\<rparr>) ''new'' True)))
     \<le> 5001"
proof -
  let ?s0 = "bbu_initial\<lparr>telemetry_history := replicate 5000 ''old''\<rparr>"
  have a: "telemetry_history (tm_receiver ?s0 ''new'' True) = replicate 4999 ''old'' @ [''new'']"
    "telemetry_live (tm_receiver ?s0 ''new'' True) = [''new'']"
    by (simp_all add: tm_receiver_buffers slice_last_def bbu_initial_def)
  have b: "length (telemetry_live bbu_initial) \<le> 2000 \<and> length (telemetry_history bbu_initial) \<le> 5000"
    by (simp add: bbu_initial_def)
  have c: "length (telemetry_live ?s0) \<le> 2000 \<and> length (telemetry_history ?s0) \<le> 5000"
    by (simp add: bbu_initial_def)
  have d: "hd (tm_receiver_states ?s0 ''new'' True) \<in> set (tm_receiver_states ?s0 ''new'' True)"
    by (simp add: tm_receiver_states_def Let_def)
  from tm_receiver_caps [of ?s0 "''new''" True "[(''a'', True), (''b'', False)]"] c d
  have e: "length (telemetry_history (hd (tm_receiver_states ?s0 ''new'' True))) \<le> 5001"
    "length (telemetry_history (tm_receiver ?s0 ''new'' True)) \<le> 5000"
    by blast+
  from tm_receiver_caps [of bbu_initial "''new''" True "[(''a'', True), (''b'', False)]"] b
  have f: "length (telemetry_live (tm_receiver_run bbu_initial [(''a'', True), (''b'', False)])) \<le> 2000"
    "length (telemetry_history (tm_receiver_run bbu_initial [(''a'', True), (''b'', False)])) \<le> 5000"
    "telemetry_history (tm_receiver_run bbu_initial [(''a'', True), (''b'', False)]) =
       slice_last 5000 (map fst [(''a'', True), (''b'', False)])"
    "telemetry_live (tm_receiver_run bbu_initial [(''a'', True), (''b'', False)]) =
       slice_last 2000 (map fst (filter snd [(''a'', True), (''b'', False)]))"
    by blast+
  from a e f show ?thesis by (simp add: slice_last_def)
qed

text \<open>
  The caps are exceeded inside a pass: with 5000 frames in the history and 2000 in the
  live buffer, the state after the append to the history holds 5001 frames, and the state
  after the append to the live buffer holds 2001, until the slice assignments cut them.
\<close>

theorem tm_receiver_caps_counterexample:
  "length (telemetry_history
     (tm_receiver_states
        (bbu_initial\<lparr>telemetry_history := replicate 5000 ''old'',
                      telemetry_live := replicate 2000 ''old''\<rparr>) ''new'' True ! 0)) = 5001 \<and>
   length (telemetry_live
     (tm_receiver_states
        (bbu_initial\<lparr>telemetry_history := replicate 5000 ''old'',
                      telemetry_live := replicate 2000 ''old''\<rparr>) ''new'' True ! 2)) = 2001"
  by (simp add: tm_receiver_states_def tm_append_history_def tm_trim_history_def
      tm_append_live_def tm_trim_live_def Let_def bbu_initial_def slice_last_def)

section \<open>Properties of rounding to a double\<close>










section \<open>Properties of the telemetry producer\<close>





















end
